theory Spec2Isabelle
  imports Main "HOL-Library.Word"
begin

section \<open>Tenant reconciliation: the data model\<close>

text \<open>
  The reconciler of \<^verbatim>\<open>pkg/controller/tenant/internal_reconciler.go\<close> holds a pointer to
  one Tenant custom resource, a Kubernetes client and a client of the remote account
  management API. Identifiers are Go \<^verbatim>\<open>int64\<close> values; they are only compared, never
  computed with.
\<close>

type_synonym int64 = "64 word"

type_synonym Params = "string \<rightharpoonup> string"

text \<open>
  Modelled from the spec: the declaration of the Tenant custom resource
  (\<^verbatim>\<open>apiv1alpha1.Tenant\<close>, with its spec and status) is not part of the source file. The
  records below carry the fields the reconciler reads and writes: the identity
  (namespace and name), the spec (organization name, administrator username and email,
  the reference to the password secret, the reference to the secret to be written) and
  the status (remote account id and remote admin user id, zero meaning unknown).
\<close>

record SecretReference =
  ref_Name :: string
  ref_Namespace :: string

record TenantSpec =
  OrganizationName :: string
  Username :: string
  Email :: string
  PasswordCredentialsRef :: SecretReference
  TenantSecretRef :: SecretReference

record TenantStatus =
  TenantId :: int64
  AdminId :: int64

record Tenant =
  Namespace :: string
  Name :: string
  Spec :: TenantSpec
  Status :: TenantStatus

text \<open>
  The remote entities, as the client library returns them: an account nested in a signup
  envelope (\<^verbatim>\<open>tenantDef.Signup.Account\<close>), a user, an application.
\<close>

record Account =
  ID :: int64
  OrgName :: string
  SupportEmail :: string
  AdminDomain :: string

record Signup =
  Account :: Account

record PortaTenant =
  Signup :: Signup

record User =
  user_ID :: int64
  State :: string
  UserName :: string
  user_Email :: string

record Application =
  UserKey :: string

text \<open>The Kubernetes objects: the name of an object, an owner reference, a secret.\<close>

record NamespacedName =
  nn_Name :: string
  nn_Namespace :: string

record OwnerReference =
  owner_APIVersion :: string
  owner_Kind :: string
  owner_Name :: string
  owner_UID :: string

record Secret =
  secret_APIVersion :: string
  secret_Kind :: string
  secret_Namespace :: string
  secret_Name :: string
  Labels :: "string \<rightharpoonup> string"
  OwnerReferences :: "OwnerReference list"
  StringData :: "string \<rightharpoonup> string"
  Data :: "string \<rightharpoonup> string"
  secret_Type :: string

subsection \<open>Errors\<close>

text \<open>
  An error is either one returned by a collaborator or one the reconciler builds with
  \<^verbatim>\<open>fmt.Errorf\<close>. The remote API client reports an HTTP failure with its status code, the
  Kubernetes client reports a status error with a reason, and both can fail otherwise
  (transport). Each \<^verbatim>\<open>fmt.Errorf\<close> of the source is a constructor holding the values
  that are formatted into the message.
\<close>

datatype error =
    ApiErr int string
  | StatusError string string
  | OtherError string
  | AdminPasswordAttributeNotFound string string string
  | AdminUserNotFound int64 string string
  | UnexpectedApplicationList int64

text \<open>
  The two classifiers of the libraries: \<^verbatim>\<open>porta_client_pkg.IsNotFound\<close> holds of an API
  error with code 404, \<^verbatim>\<open>errors.IsNotFound\<close> of a status error with reason NotFound.
\<close>

fun porta_IsNotFound :: "error \<Rightarrow> bool" where
  "porta_IsNotFound (ApiErr code msg) = (code = 404)"
| "porta_IsNotFound _ = False"

fun errors_IsNotFound :: "error \<Rightarrow> bool" where
  "errors_IsNotFound (StatusError reason msg) = (reason = ''NotFound'')"
| "errors_IsNotFound _ = False"

subsection \<open>The collaborators\<close>

text \<open>
  The remote API and the Kubernetes store are interfaces to the reconciler. They are a
  parameter of the model: a state \<open>'w\<close> of the outside world and, for every method the
  reconciler calls, a function from the world and the arguments to the answer and the next
  world. Nothing is assumed about these functions unless a theorem says so. A call that
  returns no error returns an object: the answer of a lookup is an error or a value,
  never neither.

  The same record holds the declarations of package \<^verbatim>\<open>tenant\<close> that the source file uses
  and does not define: the three secret field names, \<^verbatim>\<open>URLFromDomain\<close> (of which only the
  rendering of the URL as a string is used) and \<^verbatim>\<open>asOwner\<close>.
\<close>

record 'w env =
  TenantAdminPasswordSecretField :: string
  TenantProviderKeySecretField :: string
  TenantAdminDomainKeySecretField :: string
  URLFromDomain :: "string \<Rightarrow> error + string"
  asOwner :: "Tenant \<Rightarrow> OwnerReference"
  ShowTenant :: "'w \<Rightarrow> int64 \<Rightarrow> (error + PortaTenant) \<times> 'w"
  CreateTenant :: "'w \<Rightarrow> string \<Rightarrow> string \<Rightarrow> string \<Rightarrow> string \<Rightarrow> (error + PortaTenant) \<times> 'w"
  UpdateTenant :: "'w \<Rightarrow> int64 \<Rightarrow> Params \<Rightarrow> (error + PortaTenant) \<times> 'w"
  ListUsers :: "'w \<Rightarrow> int64 \<Rightarrow> Params \<Rightarrow> (error + User list) \<times> 'w"
  ReadUser :: "'w \<Rightarrow> int64 \<Rightarrow> int64 \<Rightarrow> (error + User) \<times> 'w"
  UpdateUser :: "'w \<Rightarrow> int64 \<Rightarrow> int64 \<Rightarrow> Params \<Rightarrow> (error + User) \<times> 'w"
  ActivateUser :: "'w \<Rightarrow> int64 \<Rightarrow> int64 \<Rightarrow> error option \<times> 'w"
  ListApplications :: "'w \<Rightarrow> int64 \<Rightarrow> (error + Application list) \<times> 'w"
  k8sGet :: "'w \<Rightarrow> NamespacedName \<Rightarrow> (error + Secret) \<times> 'w"
  k8sCreate :: "'w \<Rightarrow> Secret \<Rightarrow> error option \<times> 'w"
  k8sStatusUpdate :: "'w \<Rightarrow> Tenant \<Rightarrow> error option \<times> 'w"

text \<open>Every call to a collaborator is recorded, with its arguments, in the order made.\<close>

datatype call =
    CallShowTenant int64
  | CallCreateTenant string string string string
  | CallUpdateTenant int64 Params
  | CallListUsers int64 Params
  | CallReadUser int64 int64
  | CallUpdateUser int64 int64 Params
  | CallActivateUser int64 int64
  | CallListApplications int64
  | CallGet NamespacedName
  | CallCreate Secret
  | CallStatusUpdate Tenant

text \<open>
  The state of one run: the Tenant record behind the pointer \<^verbatim>\<open>r.tenantR\<close>, the outside
  world, and the calls made so far. Log lines are not part of the state.
\<close>

record 'w rstate =
  tenantR :: Tenant
  world :: 'w
  calls :: "call list"

definition invoke :: "call \<Rightarrow> ('w \<Rightarrow> 'r \<times> 'w) \<Rightarrow> 'w rstate \<Rightarrow> 'r \<times> 'w rstate" where
  "invoke c f s =
     (case f (world s) of (r, w') \<Rightarrow> (r, s\<lparr>world := w', calls := calls s @ [c]\<rparr>))"

section \<open>The reconciler\<close>

subsection \<open>Tenant account\<close>

definition fetchTenant :: "'w env \<Rightarrow> 'w rstate \<Rightarrow> (error + PortaTenant option) \<times> 'w rstate" where
  "fetchTenant E s =
     (if TenantId (Status (tenantR s)) = 0 then (Inr None, s)
      else
        (case invoke (CallShowTenant (TenantId (Status (tenantR s))))
                (\<lambda>w. ShowTenant E w (TenantId (Status (tenantR s)))) s of
           (Inl err, s') \<Rightarrow> if porta_IsNotFound err then (Inr None, s') else (Inl err, s')
         | (Inr tenantDef, s') \<Rightarrow> (Inr (Some tenantDef), s')))"

definition getAdminPassword :: "'w env \<Rightarrow> 'w rstate \<Rightarrow> (error + string) \<times> 'w rstate" where
  "getAdminPassword E s =
     (let nn = \<lparr>nn_Name = ref_Name (PasswordCredentialsRef (Spec (tenantR s))),
                nn_Namespace = Namespace (tenantR s)\<rparr>
      in case invoke (CallGet nn) (\<lambda>w. k8sGet E w nn) s of
           (Inl err, s') \<Rightarrow> (Inl err, s')
         | (Inr tenantAdminSecret, s') \<Rightarrow>
             (case Data tenantAdminSecret (TenantAdminPasswordSecretField E) of
                None \<Rightarrow>
                  (Inl (AdminPasswordAttributeNotFound (Namespace (tenantR s))
                          (ref_Name (PasswordCredentialsRef (Spec (tenantR s))))
                          (TenantAdminPasswordSecretField E)), s')
              | Some passwordByteArray \<Rightarrow> (Inr passwordByteArray, s')))"

definition createTenant :: "'w env \<Rightarrow> 'w rstate \<Rightarrow> (error + PortaTenant) \<times> 'w rstate" where
  "createTenant E s =
     (case getAdminPassword E s of
        (Inl err, s') \<Rightarrow> (Inl err, s')
      | (Inr password, s') \<Rightarrow>
          invoke (CallCreateTenant (OrganizationName (Spec (tenantR s')))
                    (Username (Spec (tenantR s'))) (Email (Spec (tenantR s'))) password)
            (\<lambda>w. CreateTenant E w (OrganizationName (Spec (tenantR s')))
                    (Username (Spec (tenantR s'))) (Email (Spec (tenantR s'))) password) s')"

text \<open>
  \<^verbatim>\<open>syncTenant\<close> writes the desired values into the account it was given before it calls
  the remote update; its caller returns that same object. The model returns the object
  as it is after the call.
\<close>

definition syncTenant :: "'w env \<Rightarrow> PortaTenant \<Rightarrow> 'w rstate \<Rightarrow> (error + PortaTenant) \<times> 'w rstate" where
  "syncTenant E tenantDef s =
     (let triggerSync =
            (if OrganizationName (Spec (tenantR s)) \<noteq> OrgName (Account (Signup tenantDef)) then True
             else if Email (Spec (tenantR s)) \<noteq> SupportEmail (Account (Signup tenantDef)) then True
             else False)
      in if triggerSync then
           (let tenantDef' = tenantDef\<lparr>Signup := (Signup tenantDef)\<lparr>Account :=
                  (Account (Signup tenantDef))\<lparr>OrgName := OrganizationName (Spec (tenantR s)),
                     SupportEmail := Email (Spec (tenantR s))\<rparr>\<rparr>\<rparr>;
                params = [''support_email'' \<mapsto> Email (Spec (tenantR s)),
                          ''org_name'' \<mapsto> OrganizationName (Spec (tenantR s))]
            in case invoke (CallUpdateTenant (TenantId (Status (tenantR s))) params)
                      (\<lambda>w. UpdateTenant E w (TenantId (Status (tenantR s))) params) s of
                 (Inl err, s') \<Rightarrow> (Inl err, s')
               | (Inr _, s') \<Rightarrow> (Inr tenantDef', s'))
         else (Inr tenantDef, s))"

definition reconcileTenant :: "'w env \<Rightarrow> 'w rstate \<Rightarrow> (error + PortaTenant) \<times> 'w rstate" where
  "reconcileTenant E s =
     (case fetchTenant E s of
        (Inl err, s') \<Rightarrow> (Inl err, s')
      | (Inr None, s') \<Rightarrow> createTenant E s'
      | (Inr (Some tenantDef), s') \<Rightarrow> syncTenant E tenantDef s')"

subsection \<open>Administrator user\<close>

text \<open>The loop of \<^verbatim>\<open>findAdminUser\<close> over the listed users: the first match is returned.\<close>

fun scanUsers :: "string \<Rightarrow> string \<Rightarrow> User list \<Rightarrow> User option" where
  "scanUsers email username [] = None"
| "scanUsers email username (user # users) =
     (if user_Email user = email \<and> UserName user = username then Some user
      else scanUsers email username users)"

definition findAdminUser :: "'w env \<Rightarrow> PortaTenant \<Rightarrow> 'w rstate \<Rightarrow> (error + User) \<times> 'w rstate" where
  "findAdminUser E tenantDef s =
     (let filterParams = [''role'' \<mapsto> ''admin'']
      in case invoke (CallListUsers (ID (Account (Signup tenantDef))) filterParams)
                (\<lambda>w. ListUsers E w (ID (Account (Signup tenantDef))) filterParams) s of
           (Inl err, s') \<Rightarrow> (Inl err, s')
         | (Inr userList, s') \<Rightarrow>
             (case scanUsers (Email (Spec (tenantR s'))) (Username (Spec (tenantR s'))) userList of
                Some user \<Rightarrow> (Inr user, s')
              | None \<Rightarrow>
                  (Inl (AdminUserNotFound (ID (Account (Signup tenantDef)))
                          (Username (Spec (tenantR s'))) (Email (Spec (tenantR s')))), s')))"

definition fetchAdminUser :: "'w env \<Rightarrow> PortaTenant \<Rightarrow> 'w rstate \<Rightarrow> (error + User) \<times> 'w rstate" where
  "fetchAdminUser E tenantDef s =
     (if AdminId (Status (tenantR s)) = 0 then findAdminUser E tenantDef s
      else invoke (CallReadUser (ID (Account (Signup tenantDef))) (AdminId (Status (tenantR s))))
             (\<lambda>w. ReadUser E w (ID (Account (Signup tenantDef))) (AdminId (Status (tenantR s)))) s)"

definition activateAdminUser :: "'w env \<Rightarrow> PortaTenant \<Rightarrow> User \<Rightarrow> 'w rstate \<Rightarrow> error option \<times> 'w rstate" where
  "activateAdminUser E tenantDef adminUser s =
     invoke (CallActivateUser (ID (Account (Signup tenantDef))) (user_ID adminUser))
       (\<lambda>w. ActivateUser E w (ID (Account (Signup tenantDef))) (user_ID adminUser)) s"

text \<open>
  \<^verbatim>\<open>syncAdminUser\<close> writes the desired username and email into the user object before it
  calls the remote update; the model returns the object as it is after the call.
\<close>

definition syncAdminUser :: "'w env \<Rightarrow> PortaTenant \<Rightarrow> User \<Rightarrow> 'w rstate \<Rightarrow> (error + User) \<times> 'w rstate" where
  "syncAdminUser E tenantDef adminUser s =
     (case (if State adminUser = ''pending'' then activateAdminUser E tenantDef adminUser s
            else (None, s)) of
        (Some err, s') \<Rightarrow> (Inl err, s')
      | (None, s') \<Rightarrow>
          (let triggerSync =
                 (if Username (Spec (tenantR s')) \<noteq> UserName adminUser then True
                  else if Email (Spec (tenantR s')) \<noteq> user_Email adminUser then True
                  else False)
           in if triggerSync then
                (let adminUser' = adminUser\<lparr>UserName := Username (Spec (tenantR s')),
                                            user_Email := Email (Spec (tenantR s'))\<rparr>;
                     params = [''username'' \<mapsto> Username (Spec (tenantR s')),
                               ''email'' \<mapsto> Email (Spec (tenantR s'))]
                 in case invoke (CallUpdateUser (ID (Account (Signup tenantDef))) (user_ID adminUser) params)
                           (\<lambda>w. UpdateUser E w (ID (Account (Signup tenantDef))) (user_ID adminUser) params) s' of
                      (Inl err, s'') \<Rightarrow> (Inl err, s'')
                    | (Inr _, s'') \<Rightarrow> (Inr adminUser', s''))
              else (Inr adminUser, s')))"

definition reconcileAdminUser :: "'w env \<Rightarrow> PortaTenant \<Rightarrow> 'w rstate \<Rightarrow> (error + User) \<times> 'w rstate" where
  "reconcileAdminUser E tenantDef s =
     (case fetchAdminUser E tenantDef s of
        (Inl err, s') \<Rightarrow> (Inl err, s')
      | (Inr adminUserDef, s') \<Rightarrow> syncAdminUser E tenantDef adminUserDef s')"

subsection \<open>Access token secret\<close>

definition findAccessTokenSecret :: "'w env \<Rightarrow> NamespacedName \<Rightarrow> 'w rstate \<Rightarrow> (error + Secret option) \<times> 'w rstate" where
  "findAccessTokenSecret E nn s =
     (case invoke (CallGet nn) (\<lambda>w. k8sGet E w nn) s of
        (Inl err, s') \<Rightarrow> if errors_IsNotFound err then (Inr None, s') else (Inl err, s')
      | (Inr adminAccessTokenSecret, s') \<Rightarrow> (Inr (Some adminAccessTokenSecret), s'))"

definition findTenantProviderKey :: "'w env \<Rightarrow> PortaTenant \<Rightarrow> 'w rstate \<Rightarrow> (error + string) \<times> 'w rstate" where
  "findTenantProviderKey E tenantDef s =
     (case invoke (CallListApplications (ID (Account (Signup tenantDef))))
             (\<lambda>w. ListApplications E w (ID (Account (Signup tenantDef)))) s of
        (Inl err, s') \<Rightarrow> (Inl err, s')
      | (Inr appList, s') \<Rightarrow>
          (if length appList \<noteq> 1
           then (Inl (UnexpectedApplicationList (ID (Account (Signup tenantDef)))), s')
           else (Inr (UserKey (appList ! 0)), s')))"

text \<open>
  Modelled from the spec: \<^verbatim>\<open>addOwnerRefToObject\<close> is a helper of package \<^verbatim>\<open>tenant\<close> that
  is not part of the source file. The spec has the secret carry an ownership
  back-reference to the record, set at creation time: the reference is added to the owner
  references of the object.
\<close>

definition addOwnerRefToObject :: "Secret \<Rightarrow> OwnerReference \<Rightarrow> Secret" where
  "addOwnerRefToObject secret ref = secret\<lparr>OwnerReferences := OwnerReferences secret @ [ref]\<rparr>"

definition createTenantProviderKeySecret ::
  "'w env \<Rightarrow> PortaTenant \<Rightarrow> NamespacedName \<Rightarrow> 'w rstate \<Rightarrow> error option \<times> 'w rstate" where
  "createTenantProviderKeySecret E tenantDef nn s =
     (case findTenantProviderKey E tenantDef s of
        (Inl err, s') \<Rightarrow> (Some err, s')
      | (Inr tenantProviderKey, s') \<Rightarrow>
          (case URLFromDomain E (AdminDomain (Account (Signup tenantDef))) of
             Inl err \<Rightarrow> (Some err, s')
           | Inr adminURL \<Rightarrow>
               (let secret = \<lparr>secret_APIVersion = ''v1'', secret_Kind = ''Secret'',
                               secret_Namespace = nn_Namespace nn, secret_Name = nn_Name nn,
                               Labels = [''app'' \<mapsto> ''3scale-operator''],
                               OwnerReferences = [],
                               StringData = [TenantProviderKeySecretField E \<mapsto> tenantProviderKey,
                                             TenantAdminDomainKeySecretField E \<mapsto> adminURL],
                               Data = Map.empty,
                               secret_Type = ''Opaque''\<rparr>;
                    secret' = addOwnerRefToObject secret (asOwner E (tenantR s'))
                in invoke (CallCreate secret') (\<lambda>w. k8sCreate E w secret') s')))"

definition reconcileAccessTokenSecret :: "'w env \<Rightarrow> PortaTenant \<Rightarrow> 'w rstate \<Rightarrow> error option \<times> 'w rstate" where
  "reconcileAccessTokenSecret E tenantDef s =
     (let tenantProviderKeySecretNN =
            \<lparr>nn_Name = ref_Name (TenantSecretRef (Spec (tenantR s))),
             nn_Namespace = ref_Namespace (TenantSecretRef (Spec (tenantR s)))\<rparr>
      in case findAccessTokenSecret E tenantProviderKeySecretNN s of
           (Inl err, s') \<Rightarrow> (Some err, s')
         | (Inr None, s') \<Rightarrow> createTenantProviderKeySecret E tenantDef tenantProviderKeySecretNN s'
         | (Inr (Some tenantProviderKeySecret), s') \<Rightarrow> (None, s'))"

subsection \<open>Status\<close>

definition getTenantStatus :: "PortaTenant \<Rightarrow> User \<Rightarrow> TenantStatus" where
  "getTenantStatus tenantDef adminUserDef =
     \<lparr>TenantId = ID (Account (Signup tenantDef)), AdminId = user_ID adminUserDef\<rparr>"

definition updateTenantStatus :: "'w env \<Rightarrow> TenantStatus \<Rightarrow> 'w rstate \<Rightarrow> error option \<times> 'w rstate" where
  "updateTenantStatus E tenantStatus s =
     (if Status (tenantR s) = tenantStatus then (None, s)
      else
        (let s1 = s\<lparr>tenantR := (tenantR s)\<lparr>Status := tenantStatus\<rparr>\<rparr>
         in invoke (CallStatusUpdate (tenantR s1)) (\<lambda>w. k8sStatusUpdate E w (tenantR s1)) s1))"

subsection \<open>The run\<close>

definition Run :: "'w env \<Rightarrow> 'w rstate \<Rightarrow> error option \<times> 'w rstate" where
  "Run E s =
     (case reconcileTenant E s of
        (Inl err, s1) \<Rightarrow> (Some err, s1)
      | (Inr tenantDef, s1) \<Rightarrow>
          (case reconcileAdminUser E tenantDef s1 of
             (Inl err, s2) \<Rightarrow> (Some err, s2)
           | (Inr adminUserDef, s2) \<Rightarrow>
               (case reconcileAccessTokenSecret E tenantDef s2 of
                  (Some err, s3) \<Rightarrow> (Some err, s3)
                | (None, s3) \<Rightarrow>
                    updateTenantStatus E (getTenantStatus tenantDef adminUserDef) s3)))"

section \<open>A reference world\<close>

text \<open>
  A small in-memory remote system and secret store, used to run the reconciler on concrete
  inputs. Accounts are stored under their id, users under the pair of account id and user
  id, with the ids of an account's users kept in listing order; every user is an
  administrator, and the id zero names no user in a listing. A new account gets one
  pending administrator and one application. The secret store turns the string data of a
  created secret into data, as the API server does.
\<close>

record sim =
  sim_accounts :: "int64 \<rightharpoonup> string \<times> string \<times> string"
  sim_userids :: "int64 \<Rightarrow> int64 list"
  sim_user :: "int64 \<times> int64 \<rightharpoonup> string \<times> string \<times> string"
  sim_apps :: "int64 \<Rightarrow> Application list"
  sim_secrets :: "string \<times> string \<rightharpoonup> Secret"
  sim_status :: "TenantStatus option"
  sim_next :: int64

definition mkTenant :: "int64 \<Rightarrow> string \<times> string \<times> string \<Rightarrow> PortaTenant" where
  "mkTenant i a =
     (case a of (org, email, domain) \<Rightarrow>
        \<lparr>Signup = \<lparr>Account = \<lparr>ID = i, OrgName = org, SupportEmail = email, AdminDomain = domain\<rparr>\<rparr>\<rparr>)"

definition mkUser :: "int64 \<Rightarrow> string \<times> string \<times> string \<Rightarrow> User" where
  "mkUser i u =
     (case u of (st, username, email) \<Rightarrow>
        \<lparr>user_ID = i, State = st, UserName = username, user_Email = email\<rparr>)"

definition param_or :: "Params \<Rightarrow> string \<Rightarrow> string \<Rightarrow> string" where
  "param_or params k d = (case params k of None \<Rightarrow> d | Some v \<Rightarrow> v)"

definition sim_ShowTenant :: "sim \<Rightarrow> int64 \<Rightarrow> (error + PortaTenant) \<times> sim" where
  "sim_ShowTenant w i =
     (case sim_accounts w i of
        None \<Rightarrow> (Inl (ApiErr 404 ''Not Found''), w)
      | Some a \<Rightarrow> (Inr (mkTenant i a), w))"

definition sim_CreateTenant ::
  "sim \<Rightarrow> string \<Rightarrow> string \<Rightarrow> string \<Rightarrow> string \<Rightarrow> (error + PortaTenant) \<times> sim" where
  "sim_CreateTenant w org username email password =
     (if sim_next w = 0 then (Inl (ApiErr 500 ''Internal Server Error''), w)
      else
        (let i = sim_next w; a = (org, email, org @ ''-admin.example.com'')
         in (Inr (mkTenant i a),
             w\<lparr>sim_accounts := (sim_accounts w)(i \<mapsto> a),
               sim_userids := (sim_userids w)(i := [1]),
               sim_user := (sim_user w)((i, 1) \<mapsto> (''pending'', username, email)),
               sim_apps := (sim_apps w)(i := [\<lparr>UserKey = ''key-'' @ org\<rparr>]),
               sim_next := i + 1\<rparr>)))"

definition sim_UpdateTenant :: "sim \<Rightarrow> int64 \<Rightarrow> Params \<Rightarrow> (error + PortaTenant) \<times> sim" where
  "sim_UpdateTenant w i params =
     (case sim_accounts w i of
        None \<Rightarrow> (Inl (ApiErr 404 ''Not Found''), w)
      | Some (org, email, domain) \<Rightarrow>
          (let a = (param_or params ''org_name'' org, param_or params ''support_email'' email, domain)
           in (Inr (mkTenant i a), w\<lparr>sim_accounts := (sim_accounts w)(i \<mapsto> a)\<rparr>)))"

definition sim_ListUsers :: "sim \<Rightarrow> int64 \<Rightarrow> Params \<Rightarrow> (error + User list) \<times> sim" where
  "sim_ListUsers w i params =
     (case sim_accounts w i of
        None \<Rightarrow> (Inl (ApiErr 404 ''Not Found''), w)
      | Some a \<Rightarrow>
          (Inr (List.map_filter
                  (\<lambda>uid. if uid = 0 then None else map_option (mkUser uid) (sim_user w (i, uid)))
                  (sim_userids w i)), w))"

definition sim_ReadUser :: "sim \<Rightarrow> int64 \<Rightarrow> int64 \<Rightarrow> (error + User) \<times> sim" where
  "sim_ReadUser w i uid =
     (case sim_user w (i, uid) of
        None \<Rightarrow> (Inl (ApiErr 404 ''Not Found''), w)
      | Some u \<Rightarrow> (Inr (mkUser uid u), w))"

definition sim_UpdateUser :: "sim \<Rightarrow> int64 \<Rightarrow> int64 \<Rightarrow> Params \<Rightarrow> (error + User) \<times> sim" where
  "sim_UpdateUser w i uid params =
     (case sim_user w (i, uid) of
        None \<Rightarrow> (Inl (ApiErr 404 ''Not Found''), w)
      | Some (st, username, email) \<Rightarrow>
          (let u = (st, param_or params ''username'' username, param_or params ''email'' email)
           in (Inr (mkUser uid u), w\<lparr>sim_user := (sim_user w)((i, uid) \<mapsto> u)\<rparr>)))"

definition sim_ActivateUser :: "sim \<Rightarrow> int64 \<Rightarrow> int64 \<Rightarrow> error option \<times> sim" where
  "sim_ActivateUser w i uid =
     (case sim_user w (i, uid) of
        None \<Rightarrow> (Some (ApiErr 404 ''Not Found''), w)
      | Some (st, username, email) \<Rightarrow>
          (None, w\<lparr>sim_user := (sim_user w)((i, uid) \<mapsto> (''active'', username, email))\<rparr>))"

definition sim_ListApplications :: "sim \<Rightarrow> int64 \<Rightarrow> (error + Application list) \<times> sim" where
  "sim_ListApplications w i =
     (case sim_accounts w i of
        None \<Rightarrow> (Inl (ApiErr 404 ''Not Found''), w)
      | Some a \<Rightarrow> (Inr (sim_apps w i), w))"

definition sim_k8sGet :: "sim \<Rightarrow> NamespacedName \<Rightarrow> (error + Secret) \<times> sim" where
  "sim_k8sGet w nn =
     (case sim_secrets w (nn_Namespace nn, nn_Name nn) of
        None \<Rightarrow> (Inl (StatusError ''NotFound'' (nn_Name nn)), w)
      | Some secret \<Rightarrow> (Inr secret, w))"

definition sim_k8sCreate :: "sim \<Rightarrow> Secret \<Rightarrow> error option \<times> sim" where
  "sim_k8sCreate w secret =
     (case sim_secrets w (secret_Namespace secret, secret_Name secret) of
        Some old \<Rightarrow> (Some (StatusError ''AlreadyExists'' (secret_Name secret)), w)
      | None \<Rightarrow>
          (None, w\<lparr>sim_secrets := (sim_secrets w)((secret_Namespace secret, secret_Name secret) \<mapsto>
                     secret\<lparr>StringData := Map.empty, Data := Data secret ++ StringData secret\<rparr>)\<rparr>))"

definition sim_k8sStatusUpdate :: "sim \<Rightarrow> Tenant \<Rightarrow> error option \<times> sim" where
  "sim_k8sStatusUpdate w t = (None, w\<lparr>sim_status := Some (Status t)\<rparr>)"

definition sim_URLFromDomain :: "string \<Rightarrow> error + string" where
  "sim_URLFromDomain domain =
     (if domain = [] then Inl (OtherError ''empty domain'') else Inr (''https://'' @ domain))"

definition sim_asOwner :: "Tenant \<Rightarrow> OwnerReference" where
  "sim_asOwner t =
     \<lparr>owner_APIVersion = ''capabilities.3scale.net/v1alpha1'', owner_Kind = ''Tenant'',
      owner_Name = Name t, owner_UID = Namespace t @ ''/'' @ Name t\<rparr>"

definition simE :: "sim env" where
  "simE =
     \<lparr>TenantAdminPasswordSecretField = ''admin_password'',
      TenantProviderKeySecretField = ''token'',
      TenantAdminDomainKeySecretField = ''adminURL'',
      URLFromDomain = sim_URLFromDomain,
      asOwner = sim_asOwner,
      ShowTenant = sim_ShowTenant,
      CreateTenant = sim_CreateTenant,
      UpdateTenant = sim_UpdateTenant,
      ListUsers = sim_ListUsers,
      ReadUser = sim_ReadUser,
      UpdateUser = sim_UpdateUser,
      ActivateUser = sim_ActivateUser,
      ListApplications = sim_ListApplications,
      k8sGet = sim_k8sGet,
      k8sCreate = sim_k8sCreate,
      k8sStatusUpdate = sim_k8sStatusUpdate\<rparr>"

text \<open>
  The tenant record of the examples, in namespace \<open>ns1\<close>; its password reference names a
  namespace of its own, \<open>other\<close>.
\<close>

definition spec0 :: TenantSpec where
  "spec0 =
     \<lparr>OrganizationName = ''Acme'', Username = ''admin'', Email = ''admin@acme.test'',
      PasswordCredentialsRef = \<lparr>ref_Name = ''pw'', ref_Namespace = ''other''\<rparr>,
      TenantSecretRef = \<lparr>ref_Name = ''acme-token'', ref_Namespace = ''ns1''\<rparr>\<rparr>"

definition tenant0 :: "int64 \<Rightarrow> int64 \<Rightarrow> Tenant" where
  "tenant0 tid aid =
     \<lparr>Namespace = ''ns1'', Name = ''acme'', Spec = spec0,
      Status = \<lparr>TenantId = tid, AdminId = aid\<rparr>\<rparr>"

definition pwSecret :: Secret where
  "pwSecret =
     \<lparr>secret_APIVersion = ''v1'', secret_Kind = ''Secret'', secret_Namespace = ''ns1'',
      secret_Name = ''pw'', Labels = Map.empty, OwnerReferences = [],
      StringData = Map.empty, Data = [''admin_password'' \<mapsto> ''s3cret''],
      secret_Type = ''Opaque''\<rparr>"

text \<open>An empty remote system; the store holds the password secret or nothing.\<close>

definition simEmpty :: sim where
  "simEmpty =
     \<lparr>sim_accounts = Map.empty, sim_userids = (\<lambda>i. []), sim_user = Map.empty,
      sim_apps = (\<lambda>i. []), sim_secrets = Map.empty, sim_status = None, sim_next = 1\<rparr>"

definition simFresh :: sim where
  "simFresh = simEmpty\<lparr>sim_secrets := [(''ns1'', ''pw'') \<mapsto> pwSecret]\<rparr>"

text \<open>
  A remote system that holds account 5 under the name \<open>org\<close>, with administrator 7 in the
  given state under the given username, and the given applications.
\<close>

definition simWith :: "string \<Rightarrow> string \<Rightarrow> string \<Rightarrow> Application list \<Rightarrow> sim" where
  "simWith org st username apps =
     simFresh\<lparr>sim_accounts := [5 \<mapsto> (org, ''admin@acme.test'', ''acme-admin.example.com'')],
              sim_userids := (\<lambda>i. if i = 5 then [7] else []),
              sim_user := [(5, 7) \<mapsto> (st, username, ''admin@acme.test'')],
              sim_apps := (\<lambda>i. if i = 5 then apps else []),
              sim_next := 6\<rparr>"

definition start :: "Tenant \<Rightarrow> 'w \<Rightarrow> 'w rstate" where
  "start t w = \<lparr>tenantR = t, world = w, calls = []\<rparr>"

text \<open>The reference world with a store that refuses every status update.\<close>

definition simE_statusFails :: "sim env" where
  "simE_statusFails =
     simE\<lparr>k8sStatusUpdate := (\<lambda>w t. (Some (StatusError ''Conflict'' (Name t)), w))\<rparr>"

text \<open>The reference world with a remote system whose account lookup fails.\<close>

definition simE_showFails :: "sim env" where
  "simE_showFails =
     simE\<lparr>ShowTenant := (\<lambda>w i. (Inl (ApiErr 500 ''Internal Server Error''), w))\<rparr>"

section \<open>Reading the record of calls\<close>

text \<open>The calls made between two states of a run, and the kinds of call.\<close>

definition issued :: "'w rstate \<Rightarrow> 'w rstate \<Rightarrow> call list" where
  "issued s s' = drop (length (calls s)) (calls s')"

fun isCreateTenant :: "call \<Rightarrow> bool" where
  "isCreateTenant (CallCreateTenant org username email password) = True"
| "isCreateTenant _ = False"

fun isUpdateTenant :: "call \<Rightarrow> bool" where
  "isUpdateTenant (CallUpdateTenant i params) = True"
| "isUpdateTenant _ = False"

fun isListUsers :: "call \<Rightarrow> bool" where
  "isListUsers (CallListUsers i params) = True"
| "isListUsers _ = False"

fun isActivateUser :: "call \<Rightarrow> bool" where
  "isActivateUser (CallActivateUser i uid) = True"
| "isActivateUser _ = False"

fun isUpdateUser :: "call \<Rightarrow> bool" where
  "isUpdateUser (CallUpdateUser i uid params) = True"
| "isUpdateUser _ = False"

fun isCreate :: "call \<Rightarrow> bool" where
  "isCreate (CallCreate secret) = True"
| "isCreate _ = False"

fun isStatusUpdate :: "call \<Rightarrow> bool" where
  "isStatusUpdate (CallStatusUpdate t) = True"
| "isStatusUpdate _ = False"

text \<open>A call that changes the remote system, the secret store or the stored record.\<close>

definition isWrite :: "call \<Rightarrow> bool" where
  "isWrite c \<longleftrightarrow>
     isCreateTenant c \<or> isUpdateTenant c \<or> isActivateUser c \<or> isUpdateUser c \<or>
     isCreate c \<or> isStatusUpdate c"

text \<open>The calls each stage can make.\<close>

fun tenantCall :: "call \<Rightarrow> bool" where
  "tenantCall (CallShowTenant i) = True"
| "tenantCall (CallGet nn) = True"
| "tenantCall (CallCreateTenant org username email password) = True"
| "tenantCall (CallUpdateTenant i params) = True"
| "tenantCall _ = False"

fun userCall :: "call \<Rightarrow> bool" where
  "userCall (CallListUsers i params) = True"
| "userCall (CallReadUser i uid) = True"
| "userCall (CallActivateUser i uid) = True"
| "userCall (CallUpdateUser i uid params) = True"
| "userCall _ = False"

fun secretCall :: "call \<Rightarrow> bool" where
  "secretCall (CallGet nn) = True"
| "secretCall (CallListApplications i) = True"
| "secretCall (CallCreate secret) = True"
| "secretCall _ = False"

text \<open>The state of a run after each of its first three stages.\<close>

definition afterTenant :: "'w env \<Rightarrow> 'w rstate \<Rightarrow> 'w rstate" where
  "afterTenant E s = snd (reconcileTenant E s)"

definition afterAdmin :: "'w env \<Rightarrow> PortaTenant \<Rightarrow> 'w rstate \<Rightarrow> 'w rstate" where
  "afterAdmin E tenantDef s = snd (reconcileAdminUser E tenantDef (afterTenant E s))"

definition afterSecret :: "'w env \<Rightarrow> PortaTenant \<Rightarrow> 'w rstate \<Rightarrow> 'w rstate" where
  "afterSecret E tenantDef s = snd (reconcileAccessTokenSecret E tenantDef (afterAdmin E tenantDef s))"

text \<open>A call that changes the admin user: its activation or the update of its profile.\<close>

definition isUserWrite :: "call \<Rightarrow> bool" where
  "isUserWrite c \<longleftrightarrow> isActivateUser c \<or> isUpdateUser c"

text \<open>
  The names under which the two secrets are looked up: the access token secret under the
  namespace and name of its reference, the password secret under the name of its
  reference in the namespace of the record.
\<close>

definition tenantSecretName :: "Tenant \<Rightarrow> NamespacedName" where
  "tenantSecretName t =
     \<lparr>nn_Name = ref_Name (TenantSecretRef (Spec t)),
      nn_Namespace = ref_Namespace (TenantSecretRef (Spec t))\<rparr>"

definition passwordSecretName :: "Tenant \<Rightarrow> NamespacedName" where
  "passwordSecretName t =
     \<lparr>nn_Name = ref_Name (PasswordCredentialsRef (Spec t)), nn_Namespace = Namespace t\<rparr>"

text \<open>The same state with another namespace in the password reference.\<close>

definition withPasswordNamespace :: "string \<Rightarrow> 'w rstate \<Rightarrow> 'w rstate" where
  "withPasswordNamespace ns s =
     s\<lparr>tenantR := (tenantR s)\<lparr>Spec := (Spec (tenantR s))\<lparr>PasswordCredentialsRef :=
          (PasswordCredentialsRef (Spec (tenantR s)))\<lparr>ref_Namespace := ns\<rparr>\<rparr>\<rparr>\<rparr>"

text \<open>
  The record names no remote account, or the lookup of the account it names reports that
  there is none.
\<close>

definition accountAbsent :: "'w env \<Rightarrow> 'w rstate \<Rightarrow> bool" where
  "accountAbsent E s \<longleftrightarrow>
     TenantId (Status (tenantR s)) = 0 \<or>
     (case fst (ShowTenant E (world s) (TenantId (Status (tenantR s)))) of
        Inl err \<Rightarrow> porta_IsNotFound err
      | Inr tenantDef \<Rightarrow> False)"

subsection \<open>A remote system and a store that keep what they are given\<close>

text \<open>
  What a second run finds depends on the collaborators. The assumptions under which two
  runs in a row are compared are written out here; they say that nothing but the calls of
  the reconciler changes the outside world. What a lookup answers: the account with a given
  id, organization name and support email; the user with a given id, not pending, with a
  given username and email; a secret under a given name.
\<close>

definition accountIs :: "'w env \<Rightarrow> 'w \<Rightarrow> int64 \<Rightarrow> string \<Rightarrow> string \<Rightarrow> bool" where
  "accountIs E w i org email \<longleftrightarrow>
     (case fst (ShowTenant E w i) of
        Inl err \<Rightarrow> False
      | Inr td \<Rightarrow>
          ID (Account (Signup td)) = i \<and> OrgName (Account (Signup td)) = org \<and>
          SupportEmail (Account (Signup td)) = email)"

definition activeUserIs :: "'w env \<Rightarrow> 'w \<Rightarrow> int64 \<Rightarrow> int64 \<Rightarrow> string \<Rightarrow> string \<Rightarrow> bool" where
  "activeUserIs E w a i username email \<longleftrightarrow>
     (case fst (ReadUser E w a i) of
        Inl err \<Rightarrow> False
      | Inr u \<Rightarrow>
          user_ID u = i \<and> State u \<noteq> ''pending'' \<and> UserName u = username \<and>
          user_Email u = email)"

definition secretExists :: "'w env \<Rightarrow> 'w \<Rightarrow> NamespacedName \<Rightarrow> bool" where
  "secretExists E w nn \<longleftrightarrow> (case fst (k8sGet E w nn) of Inl err \<Rightarrow> False | Inr secret \<Rightarrow> True)"

text \<open>
  The record and the world agree: the status names an account and an admin user, both are
  found under these ids with the desired values, the admin is not pending, and the access
  token secret exists.
\<close>

definition converged :: "'w env \<Rightarrow> Tenant \<Rightarrow> 'w \<Rightarrow> bool" where
  "converged E t w \<longleftrightarrow>
     TenantId (Status t) \<noteq> 0 \<and> AdminId (Status t) \<noteq> 0 \<and>
     accountIs E w (TenantId (Status t)) (OrganizationName (Spec t)) (Email (Spec t)) \<and>
     activeUserIs E w (TenantId (Status t)) (AdminId (Status t)) (Username (Spec t)) (Email (Spec t)) \<and>
     secretExists E w (tenantSecretName t)"

text \<open>The five lookups leave the world as it is.\<close>

definition readsChangeNothing :: "'w env \<Rightarrow> bool" where
  "readsChangeNothing E \<longleftrightarrow>
     (\<forall>w i. snd (ShowTenant E w i) = w) \<and>
     (\<forall>w a p. snd (ListUsers E w a p) = w) \<and>
     (\<forall>w a i. snd (ReadUser E w a i) = w) \<and>
     (\<forall>w a. snd (ListApplications E w a) = w) \<and>
     (\<forall>w nn. snd (k8sGet E w nn) = w)"

text \<open>
  A lookup by id answers with the entity of that id; a listed user has a nonzero id and
  is what the lookup by that id answers.
\<close>

definition lookupsAnswerTheId :: "'w env \<Rightarrow> bool" where
  "lookupsAnswerTheId E \<longleftrightarrow>
     (\<forall>w i td. fst (ShowTenant E w i) = Inr td \<longrightarrow> ID (Account (Signup td)) = i) \<and>
     (\<forall>w a i u. fst (ReadUser E w a i) = Inr u \<longrightarrow> user_ID u = i) \<and>
     (\<forall>w a p users u. fst (ListUsers E w a p) = Inr users \<longrightarrow> u \<in> set users \<longrightarrow>
        user_ID u \<noteq> 0 \<and> fst (ReadUser E w a (user_ID u)) = Inr u)"

text \<open>
  A successful write is seen by the next lookup: a created account has a nonzero id and
  the given organization name and email; an updated account has the given values; an
  activated user is no longer pending; an updated user has the given username and email;
  a created secret exists.
\<close>

definition writesAreRead :: "'w env \<Rightarrow> bool" where
  "writesAreRead E \<longleftrightarrow>
     (\<forall>w org username email password td.
        fst (CreateTenant E w org username email password) = Inr td \<longrightarrow>
        ID (Account (Signup td)) \<noteq> 0 \<and>
        accountIs E (snd (CreateTenant E w org username email password))
          (ID (Account (Signup td))) org email) \<and>
     (\<forall>w i p td org email.
        fst (UpdateTenant E w i p) = Inr td \<longrightarrow> p ''org_name'' = Some org \<longrightarrow>
        p ''support_email'' = Some email \<longrightarrow>
        accountIs E (snd (UpdateTenant E w i p)) i org email) \<and>
     (\<forall>w a i u.
        fst (ActivateUser E w a i) = None \<longrightarrow> fst (ReadUser E w a i) = Inr u \<longrightarrow>
        (\<exists>st. st \<noteq> ''pending'' \<and>
           fst (ReadUser E (snd (ActivateUser E w a i)) a i) = Inr (u\<lparr>State := st\<rparr>))) \<and>
     (\<forall>w a i p x u username email.
        fst (UpdateUser E w a i p) = Inr x \<longrightarrow> fst (ReadUser E w a i) = Inr u \<longrightarrow>
        p ''username'' = Some username \<longrightarrow> p ''email'' = Some email \<longrightarrow>
        fst (ReadUser E (snd (UpdateUser E w a i p)) a i) =
          Inr (u\<lparr>UserName := username, user_Email := email\<rparr>)) \<and>
     (\<forall>w secret.
        fst (k8sCreate E w secret) = None \<longrightarrow>
        secretExists E (snd (k8sCreate E w secret))
          \<lparr>nn_Name = secret_Name secret, nn_Namespace = secret_Namespace secret\<rparr>)"

text \<open>
  A write to a user, to the secret store or to the stored record does not change what the
  lookup of an account answers; a write to the secret store or to the stored record does
  not change what the lookup of a user answers; a write to the stored record does not
  change what the lookup of a secret answers.
\<close>

definition writesTouchNothingElse :: "'w env \<Rightarrow> bool" where
  "writesTouchNothingElse E \<longleftrightarrow>
     (\<forall>w a i j. fst (ShowTenant E (snd (ActivateUser E w a i)) j) = fst (ShowTenant E w j)) \<and>
     (\<forall>w a i p j. fst (ShowTenant E (snd (UpdateUser E w a i p)) j) = fst (ShowTenant E w j)) \<and>
     (\<forall>w secret j. fst (ShowTenant E (snd (k8sCreate E w secret)) j) = fst (ShowTenant E w j)) \<and>
     (\<forall>w t j. fst (ShowTenant E (snd (k8sStatusUpdate E w t)) j) = fst (ShowTenant E w j)) \<and>
     (\<forall>w secret a i. fst (ReadUser E (snd (k8sCreate E w secret)) a i) = fst (ReadUser E w a i)) \<and>
     (\<forall>w t a i. fst (ReadUser E (snd (k8sStatusUpdate E w t)) a i) = fst (ReadUser E w a i)) \<and>
     (\<forall>w t nn. fst (k8sGet E (snd (k8sStatusUpdate E w t)) nn) = fst (k8sGet E w nn))"

definition faithful :: "'w env \<Rightarrow> bool" where
  "faithful E \<longleftrightarrow>
     readsChangeNothing E \<and> lookupsAnswerTheId E \<and> writesAreRead E \<and> writesTouchNothingElse E"

section \<open>Basic facts\<close>

lemma invoke_eq:
  "invoke c f s = (fst (f (world s)), s\<lparr>world := snd (f (world s)), calls := calls s @ [c]\<rparr>)"
  by (simp add: invoke_def split: prod.split)

lemma issued_append: "calls s' = calls s @ cs \<Longrightarrow> issued s s' = cs"
  by (simp add: issued_def)

lemma filter_none: "list_all Q cs \<Longrightarrow> (\<And>c. Q c \<Longrightarrow> \<not> P c) \<Longrightarrow> filter P cs = []"
  by (induction cs) auto

subsection \<open>The record is only written by the status stage\<close>

lemma fetchTenant_tenantR: "tenantR (snd (fetchTenant E s)) = tenantR s"
  unfolding fetchTenant_def invoke_eq by (simp split: sum.splits)

lemma getAdminPassword_tenantR: "tenantR (snd (getAdminPassword E s)) = tenantR s"
  unfolding getAdminPassword_def invoke_eq Let_def by (simp split: sum.splits option.splits)

lemma createTenant_tenantR: "tenantR (snd (createTenant E s)) = tenantR s"
  unfolding createTenant_def invoke_eq split_beta
  by (simp add: getAdminPassword_tenantR split: sum.splits)

lemma syncTenant_tenantR: "tenantR (snd (syncTenant E td s)) = tenantR s"
  unfolding syncTenant_def invoke_eq Let_def by (simp split: sum.splits)

lemma reconcileTenant_tenantR: "tenantR (snd (reconcileTenant E s)) = tenantR s"
  unfolding reconcileTenant_def split_beta
  by (simp add: fetchTenant_tenantR createTenant_tenantR syncTenant_tenantR
      split: sum.splits option.splits)

lemma fetchAdminUser_tenantR: "tenantR (snd (fetchAdminUser E td s)) = tenantR s"
  unfolding fetchAdminUser_def findAdminUser_def invoke_eq Let_def
  by (simp split: sum.splits option.splits)

lemma activateAdminUser_eq:
  "activateAdminUser E td u s =
     (fst (ActivateUser E (world s) (ID (Account (Signup td))) (user_ID u)),
      s\<lparr>world := snd (ActivateUser E (world s) (ID (Account (Signup td))) (user_ID u)),
        calls := calls s @ [CallActivateUser (ID (Account (Signup td))) (user_ID u)]\<rparr>)"
  unfolding activateAdminUser_def invoke_eq by simp

text \<open>
  \<^verbatim>\<open>syncAdminUser\<close> with its two steps apart: the state after the optional activation,
  then the update of the drifted fields.
\<close>

lemma syncAdminUser_eq:
  "syncAdminUser E td u s =
     (let a = ID (Account (Signup td)); uid = user_ID u;
          s1 = (if State u = ''pending'' then snd (activateAdminUser E td u s) else s);
          params = [''username'' \<mapsto> Username (Spec (tenantR s)), ''email'' \<mapsto> Email (Spec (tenantR s))];
          upd = UpdateUser E (world s1) a uid params;
          s2 = s1\<lparr>world := snd upd, calls := calls s1 @ [CallUpdateUser a uid params]\<rparr>
      in case (if State u = ''pending'' then fst (ActivateUser E (world s) a uid) else None) of
           Some err \<Rightarrow> (Inl err, s1)
         | None \<Rightarrow>
             if Username (Spec (tenantR s)) \<noteq> UserName u \<or> Email (Spec (tenantR s)) \<noteq> user_Email u
             then (case fst upd of
                     Inl err \<Rightarrow> (Inl err, s2)
                   | Inr x \<Rightarrow> (Inr (u\<lparr>UserName := Username (Spec (tenantR s)),
                                      user_Email := Email (Spec (tenantR s))\<rparr>), s2))
             else (Inr u, s1))"
proof (cases "State u = ''pending''")
  case True
  show ?thesis
  proof (cases "fst (ActivateUser E (world s) (ID (Account (Signup td))) (user_ID u))")
    case None
    show ?thesis
      unfolding syncAdminUser_def activateAdminUser_def invoke_eq Let_def
      using True None by (simp split: sum.splits)
  next
    case (Some e)
    show ?thesis
      unfolding syncAdminUser_def activateAdminUser_def invoke_eq Let_def
      using True Some by simp
  qed
next
  case False
  show ?thesis
    unfolding syncAdminUser_def activateAdminUser_def invoke_eq Let_def
    using False by (simp split: sum.splits)
qed

lemma syncAdminUser_tenantR: "tenantR (snd (syncAdminUser E td u s)) = tenantR s"
  unfolding syncAdminUser_eq activateAdminUser_eq Let_def
  by (cases "State u = ''pending''") (simp_all split: option.split sum.split)

lemma reconcileAdminUser_tenantR: "tenantR (snd (reconcileAdminUser E td s)) = tenantR s"
  unfolding reconcileAdminUser_def split_beta
  by (simp add: fetchAdminUser_tenantR syncAdminUser_tenantR split: sum.splits)

lemma reconcileAccessTokenSecret_tenantR: "tenantR (snd (reconcileAccessTokenSecret E td s)) = tenantR s"
  unfolding reconcileAccessTokenSecret_def findAccessTokenSecret_def createTenantProviderKeySecret_def
      findTenantProviderKey_def invoke_eq Let_def
  by (simp split: sum.splits option.splits)

lemma afterSecret_tenantR: "tenantR (afterSecret E td s) = tenantR s"
  unfolding afterSecret_def afterAdmin_def afterTenant_def
  by (simp add: reconcileAccessTokenSecret_tenantR reconcileAdminUser_tenantR reconcileTenant_tenantR)

subsection \<open>The calls of each stage\<close>

lemma calls_chain:
  "\<exists>cs. calls s1 = calls s @ cs \<and> list_all P cs \<Longrightarrow>
   \<exists>cs. calls s2 = calls s1 @ cs \<and> list_all P cs \<Longrightarrow>
   \<exists>cs. calls s2 = calls s @ cs \<and> list_all P cs"
  by (metis append.assoc list_all_append)

lemma fetchTenant_calls:
  "\<exists>cs. calls (snd (fetchTenant E s)) = calls s @ cs \<and> list_all tenantCall cs"
  unfolding fetchTenant_def invoke_eq by (simp split: sum.splits)

lemma getAdminPassword_calls:
  "\<exists>cs. calls (snd (getAdminPassword E s)) = calls s @ cs \<and> list_all tenantCall cs"
  unfolding getAdminPassword_def invoke_eq Let_def by (simp split: sum.splits option.splits)

lemma createTenant_calls:
  "\<exists>cs. calls (snd (createTenant E s)) = calls s @ cs \<and> list_all tenantCall cs"
proof (cases "fst (getAdminPassword E s)")
  case (Inl err)
  then show ?thesis
    unfolding createTenant_def split_beta using getAdminPassword_calls [of E s] by simp
next
  case (Inr password)
  have "\<exists>cs. calls (snd (createTenant E s)) = calls (snd (getAdminPassword E s)) @ cs \<and>
      list_all tenantCall cs"
    unfolding createTenant_def split_beta invoke_eq using Inr by simp
  with getAdminPassword_calls [of E s] show ?thesis
    by (rule calls_chain)
qed

lemma syncTenant_calls:
  "\<exists>cs. calls (snd (syncTenant E td s)) = calls s @ cs \<and> list_all tenantCall cs"
  unfolding syncTenant_def invoke_eq Let_def by (simp split: sum.splits)

lemma reconcileTenant_calls:
  "\<exists>cs. calls (snd (reconcileTenant E s)) = calls s @ cs \<and> list_all tenantCall cs"
proof (cases "fst (fetchTenant E s)")
  case (Inl err)
  then show ?thesis
    unfolding reconcileTenant_def split_beta using fetchTenant_calls [of E s] by simp
next
  case (Inr found)
  show ?thesis
  proof (cases found)
    case None
    have "reconcileTenant E s = createTenant E (snd (fetchTenant E s))"
      unfolding reconcileTenant_def split_beta using Inr None by simp
    then show ?thesis
      using calls_chain [OF fetchTenant_calls createTenant_calls] by simp
  next
    case (Some td)
    have "reconcileTenant E s = syncTenant E td (snd (fetchTenant E s))"
      unfolding reconcileTenant_def split_beta using Inr Some by simp
    then show ?thesis
      using calls_chain [OF fetchTenant_calls syncTenant_calls] by simp
  qed
qed

lemma fetchAdminUser_calls:
  "\<exists>cs. calls (snd (fetchAdminUser E td s)) = calls s @ cs \<and> list_all userCall cs"
  unfolding fetchAdminUser_def findAdminUser_def invoke_eq Let_def
  by (simp split: sum.splits option.splits)

lemma syncAdminUser_calls:
  "\<exists>cs. calls (snd (syncAdminUser E td u s)) = calls s @ cs \<and> list_all userCall cs"
  unfolding syncAdminUser_eq activateAdminUser_eq Let_def
  by (cases "State u = ''pending''") (simp_all split: option.split sum.split)

lemma reconcileAdminUser_calls:
  "\<exists>cs. calls (snd (reconcileAdminUser E td s)) = calls s @ cs \<and> list_all userCall cs"
proof -
  obtain cs1 where 1: "calls (snd (fetchAdminUser E td s)) = calls s @ cs1" "list_all userCall cs1"
    using fetchAdminUser_calls by blast
  show ?thesis
  proof (cases "fst (fetchAdminUser E td s)")
    case (Inl e)
    then show ?thesis using 1 unfolding reconcileAdminUser_def split_beta by simp
  next
    case (Inr u)
    obtain cs2 where 2: "calls (snd (syncAdminUser E td u (snd (fetchAdminUser E td s)))) =
        calls (snd (fetchAdminUser E td s)) @ cs2" "list_all userCall cs2"
      using syncAdminUser_calls by blast
    show ?thesis using Inr 1 2 unfolding reconcileAdminUser_def split_beta by simp
  qed
qed

lemma reconcileAccessTokenSecret_calls:
  "\<exists>cs. calls (snd (reconcileAccessTokenSecret E td s)) = calls s @ cs \<and> list_all secretCall cs"
  unfolding reconcileAccessTokenSecret_def findAccessTokenSecret_def createTenantProviderKeySecret_def
      findTenantProviderKey_def invoke_eq Let_def
  by (simp split: sum.splits option.splits)

lemma updateTenantStatus_calls:
  "\<exists>cs. calls (snd (updateTenantStatus E st s)) = calls s @ cs \<and> list_all isStatusUpdate cs"
  unfolding updateTenantStatus_def invoke_eq Let_def by simp

subsection \<open>The run, stage by stage\<close>

lemma Run_tenant_fails:
  "fst (reconcileTenant E s) = Inl err \<Longrightarrow> Run E s = (Some err, afterTenant E s)"
  unfolding Run_def split_beta afterTenant_def by simp

lemma Run_admin_fails:
  "fst (reconcileTenant E s) = Inr td \<Longrightarrow>
   fst (reconcileAdminUser E td (afterTenant E s)) = Inl err \<Longrightarrow>
   Run E s = (Some err, afterAdmin E td s)"
  unfolding Run_def split_beta afterTenant_def afterAdmin_def by simp

lemma Run_secret_fails:
  "fst (reconcileTenant E s) = Inr td \<Longrightarrow>
   fst (reconcileAdminUser E td (afterTenant E s)) = Inr u \<Longrightarrow>
   fst (reconcileAccessTokenSecret E td (afterAdmin E td s)) = Some err \<Longrightarrow>
   Run E s = (Some err, afterSecret E td s)"
  unfolding Run_def split_beta afterTenant_def afterAdmin_def afterSecret_def by simp

lemma Run_status:
  "fst (reconcileTenant E s) = Inr td \<Longrightarrow>
   fst (reconcileAdminUser E td (afterTenant E s)) = Inr u \<Longrightarrow>
   fst (reconcileAccessTokenSecret E td (afterAdmin E td s)) = None \<Longrightarrow>
   Run E s = updateTenantStatus E (getTenantStatus td u) (afterSecret E td s)"
  unfolding Run_def split_beta afterTenant_def afterAdmin_def afterSecret_def by simp

subsection \<open>The calls of a whole run\<close>

lemma issued_chain:
  assumes "calls s1 = calls s @ issued s s1" and "calls s2 = calls s1 @ issued s1 s2"
  shows "issued s s2 = issued s s1 @ issued s1 s2 \<and> calls s2 = calls s @ issued s s2"
proof -
  have "calls s2 = calls s @ (issued s s1 @ issued s1 s2)"
    using assms by simp
  then have "issued s s2 = issued s s1 @ issued s1 s2"
    by (rule issued_append)
  then show ?thesis using assms by simp
qed

lemma issued_ext: "\<exists>cs. calls s' = calls s @ cs \<and> Q cs \<Longrightarrow> calls s' = calls s @ issued s s' \<and> Q (issued s s')"
  by (auto simp: issued_def)

lemma issued_tenant:
  "calls (afterTenant E s) = calls s @ issued s (afterTenant E s) \<and>
   list_all tenantCall (issued s (afterTenant E s))"
  unfolding afterTenant_def by (rule issued_ext) (rule reconcileTenant_calls)

lemma issued_admin:
  "calls (afterAdmin E td s) = calls (afterTenant E s) @ issued (afterTenant E s) (afterAdmin E td s) \<and>
   list_all userCall (issued (afterTenant E s) (afterAdmin E td s))"
  unfolding afterAdmin_def by (rule issued_ext) (rule reconcileAdminUser_calls)

lemma issued_secret:
  "calls (afterSecret E td s) = calls (afterAdmin E td s) @ issued (afterAdmin E td s) (afterSecret E td s) \<and>
   list_all secretCall (issued (afterAdmin E td s) (afterSecret E td s))"
  unfolding afterSecret_def by (rule issued_ext) (rule reconcileAccessTokenSecret_calls)

lemma issued_status:
  "calls (snd (updateTenantStatus E st s)) = calls s @ issued s (snd (updateTenantStatus E st s)) \<and>
   list_all isStatusUpdate (issued s (snd (updateTenantStatus E st s)))"
  by (rule issued_ext) (rule updateTenantStatus_calls)

lemma Run_issued:
  "issued s (snd (Run E s)) =
     issued s (afterTenant E s) @
     (case fst (reconcileTenant E s) of
        Inl e \<Rightarrow> []
      | Inr td \<Rightarrow>
          issued (afterTenant E s) (afterAdmin E td s) @
          (case fst (reconcileAdminUser E td (afterTenant E s)) of
             Inl e \<Rightarrow> []
           | Inr u \<Rightarrow>
               issued (afterAdmin E td s) (afterSecret E td s) @
               (case fst (reconcileAccessTokenSecret E td (afterAdmin E td s)) of
                  Some e \<Rightarrow> []
                | None \<Rightarrow> issued (afterSecret E td s) (snd (Run E s)))))"
proof (cases "fst (reconcileTenant E s)")
  case (Inl e)
  then show ?thesis by (simp add: Run_tenant_fails)
next
  case td: (Inr td)
  have t: "calls (afterTenant E s) = calls s @ issued s (afterTenant E s)"
    using issued_tenant by blast
  have a: "calls (afterAdmin E td s) = calls (afterTenant E s) @ issued (afterTenant E s) (afterAdmin E td s)"
    using issued_admin by blast
  note ta = issued_chain [OF t a]
  show ?thesis
  proof (cases "fst (reconcileAdminUser E td (afterTenant E s))")
    case (Inl e)
    show ?thesis
      using td Inl ta by (simp add: Run_admin_fails)
  next
    case u: (Inr u)
    have c: "calls (afterSecret E td s) = calls (afterAdmin E td s) @ issued (afterAdmin E td s) (afterSecret E td s)"
      using issued_secret by blast
    note tac = issued_chain [OF conjunct2 [OF ta] c]
    show ?thesis
    proof (cases "fst (reconcileAccessTokenSecret E td (afterAdmin E td s))")
      case (Some e)
      show ?thesis
        using td u Some ta tac by (simp add: Run_secret_fails)
    next
      case None
      have r: "Run E s = updateTenantStatus E (getTenantStatus td u) (afterSecret E td s)"
        using td u None by (rule Run_status)
      have d: "calls (snd (Run E s)) = calls (afterSecret E td s) @ issued (afterSecret E td s) (snd (Run E s))"
        unfolding r using issued_status by blast
      note tacd = issued_chain [OF conjunct2 [OF tac] d]
      show ?thesis
        using td u None ta tac tacd by simp
    qed
  qed
qed

lemma issued_Run_status:
  "fst (reconcileTenant E s) = Inr td \<Longrightarrow>
   fst (reconcileAdminUser E td (afterTenant E s)) = Inr u \<Longrightarrow>
   fst (reconcileAccessTokenSecret E td (afterAdmin E td s)) = None \<Longrightarrow>
   list_all isStatusUpdate (issued (afterSecret E td s) (snd (Run E s)))"
  using issued_status [of E "getTenantStatus td u" "afterSecret E td s"]
  by (simp add: Run_status)

text \<open>A kind of call that only the tenant stage makes is absent from the later stages.\<close>

lemma Run_filter_tenant:
  assumes "\<And>c. userCall c \<Longrightarrow> \<not> P c" and "\<And>c. secretCall c \<Longrightarrow> \<not> P c"
    and "\<And>c. isStatusUpdate c \<Longrightarrow> \<not> P c"
  shows "filter P (issued s (snd (Run E s))) = filter P (issued s (afterTenant E s))"
proof -
  have a: "filter P (issued (afterTenant E s) (afterAdmin E td s)) = []" for td
    using issued_admin [of E td s] assms(1) by (auto intro: filter_none)
  have b: "filter P (issued (afterAdmin E td s) (afterSecret E td s)) = []" for td
    using issued_secret [of E td s] assms(2) by (auto intro: filter_none)
  have c: "fst (reconcileTenant E s) = Inr td \<Longrightarrow>
      fst (reconcileAdminUser E td (afterTenant E s)) = Inr u \<Longrightarrow>
      fst (reconcileAccessTokenSecret E td (afterAdmin E td s)) = None \<Longrightarrow>
      filter P (issued (afterSecret E td s) (snd (Run E s))) = []" for td u
    using issued_Run_status [of E s td u] assms(3) by (auto intro: filter_none)
  show ?thesis
    unfolding Run_issued [of s E]
    using a b c by (auto split: sum.split option.split)
qed

lemma Run_filter_admin:
  assumes "\<And>c. tenantCall c \<Longrightarrow> \<not> P c" and "\<And>c. secretCall c \<Longrightarrow> \<not> P c"
    and "\<And>c. isStatusUpdate c \<Longrightarrow> \<not> P c"
    and "fst (reconcileTenant E s) = Inr td"
  shows "filter P (issued s (snd (Run E s))) = filter P (issued (afterTenant E s) (afterAdmin E td s))"
proof -
  have a: "filter P (issued s (afterTenant E s)) = []"
    using issued_tenant [of E s] assms(1) by (auto intro: filter_none)
  have b: "filter P (issued (afterAdmin E td s) (afterSecret E td s)) = []"
    using issued_secret [of E td s] assms(2) by (auto intro: filter_none)
  have c: "fst (reconcileAdminUser E td (afterTenant E s)) = Inr u \<Longrightarrow>
      fst (reconcileAccessTokenSecret E td (afterAdmin E td s)) = None \<Longrightarrow>
      filter P (issued (afterSecret E td s) (snd (Run E s))) = []" for u
    using issued_Run_status [of E s td u] assms(3,4) by (auto intro: filter_none)
  show ?thesis
    unfolding Run_issued [of s E]
    using a b c assms(4) by (auto split: sum.split option.split)
qed

lemma Run_filter_secret:
  assumes "\<And>c. tenantCall c \<Longrightarrow> \<not> P c" and "\<And>c. userCall c \<Longrightarrow> \<not> P c"
    and "\<And>c. isStatusUpdate c \<Longrightarrow> \<not> P c"
    and "fst (reconcileTenant E s) = Inr td"
    and "fst (reconcileAdminUser E td (afterTenant E s)) = Inr u"
  shows "filter P (issued s (snd (Run E s))) = filter P (issued (afterAdmin E td s) (afterSecret E td s))"
proof -
  have a: "filter P (issued s (afterTenant E s)) = []"
    using issued_tenant [of E s] assms(1) by (auto intro: filter_none)
  have b: "filter P (issued (afterTenant E s) (afterAdmin E td s)) = []"
    using issued_admin [of E td s] assms(2) by (auto intro: filter_none)
  have c: "fst (reconcileAccessTokenSecret E td (afterAdmin E td s)) = None \<Longrightarrow>
      filter P (issued (afterSecret E td s) (snd (Run E s))) = []"
    using issued_Run_status [of E s td u] assms(3,4,5) by (auto intro: filter_none)
  show ?thesis
    unfolding Run_issued [of s E]
    using a b c assms(4,5) by (auto split: sum.split option.split)
qed

text \<open>Unfolding rules for running the reconciler on the reference world.\<close>

lemmas run_defs = Run_def reconcileTenant_def fetchTenant_def createTenant_def getAdminPassword_def
  syncTenant_def reconcileAdminUser_def fetchAdminUser_def findAdminUser_def syncAdminUser_def
  activateAdminUser_def reconcileAccessTokenSecret_def findAccessTokenSecret_def
  createTenantProviderKeySecret_def findTenantProviderKey_def addOwnerRefToObject_def
  getTenantStatus_def updateTenantStatus_def invoke_def afterTenant_def afterAdmin_def
  afterSecret_def issued_def

lemmas sim_defs = simE_def sim_ShowTenant_def sim_CreateTenant_def sim_UpdateTenant_def
  sim_ListUsers_def sim_ReadUser_def sim_UpdateUser_def sim_ActivateUser_def sim_ListApplications_def
  sim_k8sGet_def sim_k8sCreate_def sim_k8sStatusUpdate_def sim_URLFromDomain_def sim_asOwner_def
  mkTenant_def mkUser_def param_or_def spec0_def tenant0_def pwSecret_def simEmpty_def simFresh_def
  simWith_def start_def simE_statusFails_def simE_showFails_def List.map_filter_def isUserWrite_def

section \<open>The status stage\<close>

text \<open>
  C7. When a run reaches the status stage, the candidate status, made of the account's id
  and the admin user's id, is compared with the status of the record, field by field. If
  they are equal the run ends in success without any further call and without a change
  of state. Otherwise the record's status is replaced by the candidate, the record is
  passed to the status update of the store, and the run returns what that update
  returns. The earlier stages leave the record as it was.
\<close>

theorem status_stage_writes_only_a_changed_status:
  assumes "fst (reconcileTenant E s) = Inr td"
    and "fst (reconcileAdminUser E td (afterTenant E s)) = Inr u"
    and "fst (reconcileAccessTokenSecret E td (afterAdmin E td s)) = None"
  shows "tenantR (afterSecret E td s) = tenantR s \<and>
     getTenantStatus td u = \<lparr>TenantId = ID (Account (Signup td)), AdminId = user_ID u\<rparr> \<and>
     Run E s =
       (let s3 = afterSecret E td s;
            candidate = \<lparr>TenantId = ID (Account (Signup td)), AdminId = user_ID u\<rparr>;
            t' = (tenantR s)\<lparr>Status := candidate\<rparr>
        in if TenantId (Status (tenantR s)) = TenantId candidate \<and>
              AdminId (Status (tenantR s)) = AdminId candidate
           then (None, s3)
           else (fst (k8sStatusUpdate E (world s3) t'),
                 \<lparr>tenantR = t', world = snd (k8sStatusUpdate E (world s3) t'),
                  calls = calls s3 @ [CallStatusUpdate t']\<rparr>))"
proof -
  have r: "tenantR (afterSecret E td s) = tenantR s"
    by (rule afterSecret_tenantR)
  have eq: "Status (tenantR s) = getTenantStatus td u \<longleftrightarrow>
      TenantId (Status (tenantR s)) = ID (Account (Signup td)) \<and>
      AdminId (Status (tenantR s)) = user_ID u"
    unfolding getTenantStatus_def by (cases "Status (tenantR s)") auto
  have "Run E s = updateTenantStatus E (getTenantStatus td u) (afterSecret E td s)"
    using assms by (rule Run_status)
  then show ?thesis
    using r eq unfolding updateTenantStatus_def invoke_eq Let_def
    by (simp add: getTenantStatus_def)
qed

theorem status_stage_writes_only_a_changed_status_witness:
  "fst (reconcileTenant simE (start (tenant0 0 0) simFresh)) =
     Inr (mkTenant 1 (''Acme'', ''admin@acme.test'', ''Acme-admin.example.com'')) \<and>
   fst (Run simE (start (tenant0 0 0) simFresh)) = None \<and>
   Status (tenantR (snd (Run simE (start (tenant0 0 0) simFresh)))) = \<lparr>TenantId = 1, AdminId = 1\<rparr> \<and>
   sim_status (world (snd (Run simE (start (tenant0 0 0) simFresh)))) = Some \<lparr>TenantId = 1, AdminId = 1\<rparr> \<and>
   fst (Run simE (start (tenant0 5 7) (simWith ''Acme'' ''active'' ''admin'' [\<lparr>UserKey = ''k''\<rparr>]))) = None \<and>
   filter isStatusUpdate
     (calls (snd (Run simE (start (tenant0 5 7) (simWith ''Acme'' ''active'' ''admin'' [\<lparr>UserKey = ''k''\<rparr>]))))) = []"
proof -
  let ?s = "start (tenant0 0 0) simFresh"
  let ?td = "mkTenant 1 (''Acme'', ''admin@acme.test'', ''Acme-admin.example.com'')"
  let ?u = "mkUser 1 (''pending'', ''admin'', ''admin@acme.test'')"
  have 1: "fst (reconcileTenant simE ?s) = Inr ?td"
    by (simp add: run_defs sim_defs)
  have 2: "fst (reconcileAdminUser simE ?td (afterTenant simE ?s)) = Inr ?u"
    by (simp add: run_defs sim_defs)
  have 3: "fst (reconcileAccessTokenSecret simE ?td (afterAdmin simE ?td ?s)) = None"
    by (simp add: run_defs sim_defs)
  let ?s' = "start (tenant0 5 7) (simWith ''Acme'' ''active'' ''admin'' [\<lparr>UserKey = ''k''\<rparr>])"
  let ?td' = "mkTenant 5 (''Acme'', ''admin@acme.test'', ''acme-admin.example.com'')"
  let ?u' = "mkUser 7 (''active'', ''admin'', ''admin@acme.test'')"
  have 4: "fst (reconcileTenant simE ?s') = Inr ?td'"
    by (simp add: run_defs sim_defs)
  have 5: "fst (reconcileAdminUser simE ?td' (afterTenant simE ?s')) = Inr ?u'"
    by (simp add: run_defs sim_defs)
  have 6: "fst (reconcileAccessTokenSecret simE ?td' (afterAdmin simE ?td' ?s')) = None"
    by (simp add: run_defs sim_defs)
  have 7: "filter isStatusUpdate (calls (afterSecret simE ?td' ?s')) = []"
    by (simp add: run_defs sim_defs)
  from status_stage_writes_only_a_changed_status [OF 1 2 3]
    status_stage_writes_only_a_changed_status [OF 4 5 6] 1 7 show ?thesis
    by (simp add: sim_defs Let_def)
qed

section \<open>The account stage\<close>

lemma fetchTenant_eq:
  "fetchTenant E s =
     (let tid = TenantId (Status (tenantR s)) in
      if tid = 0 then (Inr None, s)
      else
        (case fst (ShowTenant E (world s) tid) of
           Inl err \<Rightarrow> if porta_IsNotFound err then Inr None else Inl err
         | Inr td \<Rightarrow> Inr (Some td),
         s\<lparr>world := snd (ShowTenant E (world s) tid), calls := calls s @ [CallShowTenant tid]\<rparr>))"
  unfolding fetchTenant_def invoke_eq Let_def by (simp split: sum.split)

lemma fetchTenant_found:
  assumes "fst (fetchTenant E s) = Inr (Some td)"
  shows "TenantId (Status (tenantR s)) \<noteq> 0"
    and "fst (ShowTenant E (world s) (TenantId (Status (tenantR s)))) = Inr td"
    and "snd (fetchTenant E s) = s\<lparr>world := snd (ShowTenant E (world s) (TenantId (Status (tenantR s)))),
           calls := calls s @ [CallShowTenant (TenantId (Status (tenantR s)))]\<rparr>"
  using assms unfolding fetchTenant_eq Let_def
  by (auto split: if_splits sum.splits)

lemma syncTenant_eq:
  "syncTenant E td s =
     (let tid = TenantId (Status (tenantR s));
          params = [''support_email'' \<mapsto> Email (Spec (tenantR s)),
                    ''org_name'' \<mapsto> OrganizationName (Spec (tenantR s))];
          upd = UpdateTenant E (world s) tid params;
          s' = s\<lparr>world := snd upd, calls := calls s @ [CallUpdateTenant tid params]\<rparr>
      in if OrganizationName (Spec (tenantR s)) \<noteq> OrgName (Account (Signup td)) \<or>
            Email (Spec (tenantR s)) \<noteq> SupportEmail (Account (Signup td))
         then (case fst upd of
                 Inl err \<Rightarrow> (Inl err, s')
               | Inr x \<Rightarrow>
                   (Inr (td\<lparr>Signup := (Signup td)\<lparr>Account := (Account (Signup td))
                          \<lparr>OrgName := OrganizationName (Spec (tenantR s)),
                           SupportEmail := Email (Spec (tenantR s))\<rparr>\<rparr>\<rparr>), s'))
         else (Inr td, s))"
  unfolding syncTenant_def invoke_eq Let_def by (simp split: sum.split)

lemma reconcileTenant_found:
  assumes "fst (fetchTenant E s) = Inr (Some td)"
  shows "reconcileTenant E s = syncTenant E td (snd (fetchTenant E s))"
  using assms unfolding reconcileTenant_def split_beta by simp

lemma issued_tenant_found:
  assumes "fst (fetchTenant E s) = Inr (Some td)"
  shows "issued s (afterTenant E s) =
     CallShowTenant (TenantId (Status (tenantR s))) #
     (if OrganizationName (Spec (tenantR s)) \<noteq> OrgName (Account (Signup td)) \<or>
         Email (Spec (tenantR s)) \<noteq> SupportEmail (Account (Signup td))
      then [CallUpdateTenant (TenantId (Status (tenantR s)))
              [''support_email'' \<mapsto> Email (Spec (tenantR s)),
               ''org_name'' \<mapsto> OrganizationName (Spec (tenantR s))]]
      else [])"
proof -
  note f = fetchTenant_found [OF assms]
  show ?thesis
    unfolding afterTenant_def reconcileTenant_found [OF assms] syncTenant_eq Let_def f(3)
    by (rule issued_append) (simp split: sum.split)
qed

text \<open>
  C4. When the lookup by id finds the remote account, the run makes an account update call
  if and only if the desired organization name differs from the remote one or the desired
  email differs from the remote support email. There is then exactly one such call; it is
  addressed to the id in the record's status and carries both desired values, so every
  changed field is in it. When both fields agree the run makes no account update call.
\<close>

theorem account_updated_exactly_on_drift:
  assumes "fst (fetchTenant E s) = Inr (Some td)"
  shows "filter isUpdateTenant (issued s (snd (Run E s))) =
     (if OrganizationName (Spec (tenantR s)) \<noteq> OrgName (Account (Signup td)) \<or>
         Email (Spec (tenantR s)) \<noteq> SupportEmail (Account (Signup td))
      then [CallUpdateTenant (TenantId (Status (tenantR s)))
              [''support_email'' \<mapsto> Email (Spec (tenantR s)),
               ''org_name'' \<mapsto> OrganizationName (Spec (tenantR s))]]
      else [])"
proof -
  have "filter isUpdateTenant (issued s (snd (Run E s))) =
      filter isUpdateTenant (issued s (afterTenant E s))"
  proof (rule Run_filter_tenant)
    show "\<not> isUpdateTenant c" if "userCall c" for c using that by (cases c) simp_all
    show "\<not> isUpdateTenant c" if "secretCall c" for c using that by (cases c) simp_all
    show "\<not> isUpdateTenant c" if "isStatusUpdate c" for c using that by (cases c) simp_all
  qed
  then show ?thesis
    unfolding issued_tenant_found [OF assms] by simp
qed

theorem account_updated_exactly_on_drift_witness:
  "filter isUpdateTenant (issued (start (tenant0 5 7) (simWith ''Old'' ''active'' ''admin'' [\<lparr>UserKey = ''k''\<rparr>]))
      (snd (Run simE (start (tenant0 5 7) (simWith ''Old'' ''active'' ''admin'' [\<lparr>UserKey = ''k''\<rparr>]))))) =
     [CallUpdateTenant 5 [''support_email'' \<mapsto> ''admin@acme.test'', ''org_name'' \<mapsto> ''Acme'']] \<and>
   filter isUpdateTenant (issued (start (tenant0 5 7) (simWith ''Acme'' ''active'' ''admin'' [\<lparr>UserKey = ''k''\<rparr>]))
      (snd (Run simE (start (tenant0 5 7) (simWith ''Acme'' ''active'' ''admin'' [\<lparr>UserKey = ''k''\<rparr>]))))) = []"
proof -
  let ?s = "\<lambda>org. start (tenant0 5 7) (simWith org ''active'' ''admin'' [\<lparr>UserKey = ''k''\<rparr>])"
  let ?td = "\<lambda>org. mkTenant 5 (org, ''admin@acme.test'', ''acme-admin.example.com'')"
  have 1: "fst (fetchTenant simE (?s org)) = Inr (Some (?td org))" for org
    by (simp add: run_defs sim_defs)
  show ?thesis
    using account_updated_exactly_on_drift [OF 1 [of "''Old''"]]
      account_updated_exactly_on_drift [OF 1 [of "''Acme''"]]
    by (simp add: sim_defs)
qed

section \<open>The administrator stage\<close>

lemma scanUsers_find:
  "scanUsers email username users =
     find (\<lambda>x. UserName x = username \<and> user_Email x = email) users"
  by (induction users) auto

lemma findAdminUser_eq:
  "findAdminUser E td s =
     (let a = ID (Account (Signup td));
          lst = ListUsers E (world s) a [''role'' \<mapsto> ''admin''];
          s' = s\<lparr>world := snd lst, calls := calls s @ [CallListUsers a [''role'' \<mapsto> ''admin'']]\<rparr>
      in (case fst lst of
            Inl err \<Rightarrow> Inl err
          | Inr users \<Rightarrow>
              (case scanUsers (Email (Spec (tenantR s))) (Username (Spec (tenantR s))) users of
                 Some user \<Rightarrow> Inr user
               | None \<Rightarrow> Inl (AdminUserNotFound a (Username (Spec (tenantR s))) (Email (Spec (tenantR s))))),
          s'))"
  unfolding findAdminUser_def invoke_eq Let_def by (simp split: sum.split option.split)

lemma fetchAdminUser_eq:
  "fetchAdminUser E td s =
     (if AdminId (Status (tenantR s)) = 0 then findAdminUser E td s
      else (fst (ReadUser E (world s) (ID (Account (Signup td))) (AdminId (Status (tenantR s)))),
            s\<lparr>world := snd (ReadUser E (world s) (ID (Account (Signup td))) (AdminId (Status (tenantR s)))),
              calls := calls s @ [CallReadUser (ID (Account (Signup td))) (AdminId (Status (tenantR s)))]\<rparr>))"
  unfolding fetchAdminUser_def invoke_eq by simp

lemma issued_fetchAdminUser:
  "issued s (snd (fetchAdminUser E td s)) =
     (if AdminId (Status (tenantR s)) = 0
      then [CallListUsers (ID (Account (Signup td))) [''role'' \<mapsto> ''admin'']]
      else [CallReadUser (ID (Account (Signup td))) (AdminId (Status (tenantR s)))])"
  by (rule issued_append) (simp add: fetchAdminUser_eq findAdminUser_eq Let_def)

lemma issued_syncAdminUser:
  "issued s (snd (syncAdminUser E td u s)) =
     (if State u = ''pending'' then [CallActivateUser (ID (Account (Signup td))) (user_ID u)] else []) @
     (if (State u = ''pending'' \<longrightarrow>
            fst (ActivateUser E (world s) (ID (Account (Signup td))) (user_ID u)) = None) \<and>
         (Username (Spec (tenantR s)) \<noteq> UserName u \<or> Email (Spec (tenantR s)) \<noteq> user_Email u)
      then [CallUpdateUser (ID (Account (Signup td))) (user_ID u)
              [''username'' \<mapsto> Username (Spec (tenantR s)), ''email'' \<mapsto> Email (Spec (tenantR s))]]
      else [])"
proof (rule issued_append, cases "State u = ''pending''")
  case True
  then show "calls (snd (syncAdminUser E td u s)) = calls s @
     (if State u = ''pending'' then [CallActivateUser (ID (Account (Signup td))) (user_ID u)] else []) @
     (if (State u = ''pending'' \<longrightarrow>
            fst (ActivateUser E (world s) (ID (Account (Signup td))) (user_ID u)) = None) \<and>
         (Username (Spec (tenantR s)) \<noteq> UserName u \<or> Email (Spec (tenantR s)) \<noteq> user_Email u)
      then [CallUpdateUser (ID (Account (Signup td))) (user_ID u)
              [''username'' \<mapsto> Username (Spec (tenantR s)), ''email'' \<mapsto> Email (Spec (tenantR s))]]
      else [])"
    unfolding syncAdminUser_eq activateAdminUser_eq Let_def
    by (cases "fst (ActivateUser E (world s) (ID (Account (Signup td))) (user_ID u))")
      (simp_all split: sum.split)
next
  case False
  then show "calls (snd (syncAdminUser E td u s)) = calls s @
     (if State u = ''pending'' then [CallActivateUser (ID (Account (Signup td))) (user_ID u)] else []) @
     (if (State u = ''pending'' \<longrightarrow>
            fst (ActivateUser E (world s) (ID (Account (Signup td))) (user_ID u)) = None) \<and>
         (Username (Spec (tenantR s)) \<noteq> UserName u \<or> Email (Spec (tenantR s)) \<noteq> user_Email u)
      then [CallUpdateUser (ID (Account (Signup td))) (user_ID u)
              [''username'' \<mapsto> Username (Spec (tenantR s)), ''email'' \<mapsto> Email (Spec (tenantR s))]]
      else [])"
    unfolding syncAdminUser_eq activateAdminUser_eq Let_def
    by (simp split: sum.split)
qed

lemma reconcileAdminUser_fetch_fails:
  "fst (fetchAdminUser E td s) = Inl err \<Longrightarrow>
   reconcileAdminUser E td s = (Inl err, snd (fetchAdminUser E td s))"
  unfolding reconcileAdminUser_def split_beta by simp

lemma reconcileAdminUser_fetched:
  "fst (fetchAdminUser E td s) = Inr u \<Longrightarrow>
   reconcileAdminUser E td s = syncAdminUser E td u (snd (fetchAdminUser E td s))"
  unfolding reconcileAdminUser_def split_beta by simp

lemma issued_admin_fetched:
  assumes "fst (fetchAdminUser E td (afterTenant E s)) = Inr u"
  shows "issued (afterTenant E s) (afterAdmin E td s) =
     issued (afterTenant E s) (snd (fetchAdminUser E td (afterTenant E s))) @
     issued (snd (fetchAdminUser E td (afterTenant E s)))
       (snd (syncAdminUser E td u (snd (fetchAdminUser E td (afterTenant E s)))))"
proof -
  have 1: "calls (snd (fetchAdminUser E td (afterTenant E s))) =
      calls (afterTenant E s) @ issued (afterTenant E s) (snd (fetchAdminUser E td (afterTenant E s)))"
    using issued_ext [OF fetchAdminUser_calls] by blast
  have 2: "calls (snd (syncAdminUser E td u (snd (fetchAdminUser E td (afterTenant E s))))) =
      calls (snd (fetchAdminUser E td (afterTenant E s))) @
      issued (snd (fetchAdminUser E td (afterTenant E s)))
        (snd (syncAdminUser E td u (snd (fetchAdminUser E td (afterTenant E s)))))"
    using issued_ext [OF syncAdminUser_calls] by blast
  show ?thesis
    unfolding afterAdmin_def reconcileAdminUser_fetched [OF assms]
    using issued_chain [OF 1 2] by simp
qed

text \<open>
  C3. Take a run whose admin user has been resolved. The calls of the whole run that
  change a user are then known exactly. If the user's state is \<open>pending\<close>, the first of
  them is the activation of that user, and the only other one, if any, is one profile
  update of that user after it, made when the activation succeeded and the username or
  the email differs. If the state is not \<open>pending\<close>, there is no activation call at all:
  the only possible call is that profile update. The activation calls of the run are
  listed once more on their own.
\<close>

theorem activation_precedes_profile_update:
  assumes "fst (reconcileTenant E s) = Inr td"
    and "fst (fetchAdminUser E td (afterTenant E s)) = Inr u"
  shows "filter isUserWrite (issued s (snd (Run E s))) =
     (let a = ID (Account (Signup td));
          w = world (snd (fetchAdminUser E td (afterTenant E s)));
          drift = (Username (Spec (tenantR s)) \<noteq> UserName u \<or> Email (Spec (tenantR s)) \<noteq> user_Email u);
          update = CallUpdateUser a (user_ID u)
              [''username'' \<mapsto> Username (Spec (tenantR s)), ''email'' \<mapsto> Email (Spec (tenantR s))]
      in if State u = ''pending''
         then CallActivateUser a (user_ID u) #
              (if fst (ActivateUser E w a (user_ID u)) = None \<and> drift then [update] else [])
         else (if drift then [update] else [])) \<and>
     filter isActivateUser (issued s (snd (Run E s))) =
       (if State u = ''pending'' then [CallActivateUser (ID (Account (Signup td))) (user_ID u)]
        else [])"
proof -
  let ?s1 = "afterTenant E s"
  let ?s2 = "snd (fetchAdminUser E td ?s1)"
  have r: "tenantR ?s2 = tenantR s"
    by (simp add: fetchAdminUser_tenantR afterTenant_def reconcileTenant_tenantR)
  have "filter isUserWrite (issued s (snd (Run E s))) =
      filter isUserWrite (issued ?s1 (afterAdmin E td s))"
  proof (rule Run_filter_admin [OF _ _ _ assms(1)])
    show "\<not> isUserWrite c" if "tenantCall c" for c
      using that by (cases c) (simp_all add: isUserWrite_def)
    show "\<not> isUserWrite c" if "secretCall c" for c
      using that by (cases c) (simp_all add: isUserWrite_def)
    show "\<not> isUserWrite c" if "isStatusUpdate c" for c
      using that by (cases c) (simp_all add: isUserWrite_def)
  qed
  also have "\<dots> = filter isUserWrite (issued ?s2 (snd (syncAdminUser E td u ?s2)))"
    unfolding issued_admin_fetched [OF assms(2)] issued_fetchAdminUser
    by (simp add: isUserWrite_def)
  finally have w: "filter isUserWrite (issued s (snd (Run E s))) =
      filter isUserWrite (issued ?s2 (snd (syncAdminUser E td u ?s2)))" .
  have "filter isActivateUser (issued s (snd (Run E s))) =
      filter isActivateUser (filter isUserWrite (issued s (snd (Run E s))))"
    by (simp add: isUserWrite_def conj_commute cong: conj_cong)
  then have a: "filter isActivateUser (issued s (snd (Run E s))) =
      filter isActivateUser (filter isUserWrite (issued ?s2 (snd (syncAdminUser E td u ?s2))))"
    unfolding w .
  show ?thesis
    unfolding a unfolding w issued_syncAdminUser r Let_def by (simp add: isUserWrite_def)
qed

theorem activation_precedes_profile_update_witness:
  "filter isUserWrite
     (issued (start (tenant0 5 7) (simWith ''Acme'' ''pending'' ''root'' [\<lparr>UserKey = ''k''\<rparr>]))
        (snd (Run simE (start (tenant0 5 7) (simWith ''Acme'' ''pending'' ''root'' [\<lparr>UserKey = ''k''\<rparr>]))))) =
     [CallActivateUser 5 7,
      CallUpdateUser 5 7 [''username'' \<mapsto> ''admin'', ''email'' \<mapsto> ''admin@acme.test'']] \<and>
   filter isUserWrite
     (issued (start (tenant0 5 7) (simWith ''Acme'' ''active'' ''root'' [\<lparr>UserKey = ''k''\<rparr>]))
        (snd (Run simE (start (tenant0 5 7) (simWith ''Acme'' ''active'' ''root'' [\<lparr>UserKey = ''k''\<rparr>]))))) =
     [CallUpdateUser 5 7 [''username'' \<mapsto> ''admin'', ''email'' \<mapsto> ''admin@acme.test'']]"
proof -
  let ?s = "\<lambda>st. start (tenant0 5 7) (simWith ''Acme'' st ''root'' [\<lparr>UserKey = ''k''\<rparr>])"
  let ?td = "mkTenant 5 (''Acme'', ''admin@acme.test'', ''acme-admin.example.com'')"
  let ?u = "\<lambda>st. mkUser 7 (st, ''root'', ''admin@acme.test'')"
  have 1: "fst (reconcileTenant simE (?s st)) = Inr ?td" for st
    by (simp add: run_defs sim_defs)
  have 2: "fst (fetchAdminUser simE ?td (afterTenant simE (?s st))) = Inr (?u st)" for st
    by (simp add: run_defs sim_defs)
  have 3: "fst (ActivateUser simE (world (snd (fetchAdminUser simE ?td (afterTenant simE (?s ''pending'')))))
      5 7) = None"
    by (simp add: run_defs sim_defs)
  have 4: "ID (Account (Signup ?td)) = 5" "user_ID (?u st) = 7" "State (?u st) = st"
    "UserName (?u st) = ''root''" "user_Email (?u st) = ''admin@acme.test''"
    "Username (Spec (tenantR (?s st))) = ''admin''"
    "Email (Spec (tenantR (?s st))) = ''admin@acme.test''" for st
    by (simp_all add: mkTenant_def mkUser_def start_def tenant0_def spec0_def)
  note a = activation_precedes_profile_update [OF 1 2, of "''pending''", unfolded 4 Let_def, unfolded 3]
  note b = activation_precedes_profile_update [OF 1 2, of "''active''", unfolded 4 Let_def]
  show ?thesis
    using a b by simp
qed

text \<open>
  C5. When the record's status admin id is zero, the admin is resolved by one call that
  lists the users of the account with the role filter \<open>admin\<close>. If the call returns a
  list, the result is the first listed user whose username and email both equal the
  desired ones (the loop of the source computes what \<open>find\<close> computes), and if every
  listed user differs in at least one of the two fields the run fails with the error
  that names the account id, the username and the email.
\<close>

theorem admin_found_by_scanning_listed_users:
  assumes "fst (reconcileTenant E s) = Inr td"
    and "AdminId (Status (tenantR s)) = 0"
    and "fst (ListUsers E (world (afterTenant E s)) (ID (Account (Signup td))) [''role'' \<mapsto> ''admin'']) = Inr users"
  shows "issued (afterTenant E s) (snd (fetchAdminUser E td (afterTenant E s))) =
       [CallListUsers (ID (Account (Signup td))) [''role'' \<mapsto> ''admin'']] \<and>
     fst (fetchAdminUser E td (afterTenant E s)) =
       (case find (\<lambda>x. UserName x = Username (Spec (tenantR s)) \<and>
                        user_Email x = Email (Spec (tenantR s))) users of
          Some x \<Rightarrow> Inr x
        | None \<Rightarrow> Inl (AdminUserNotFound (ID (Account (Signup td)))
                    (Username (Spec (tenantR s))) (Email (Spec (tenantR s))))) \<and>
     ((\<forall>x \<in> set users. UserName x \<noteq> Username (Spec (tenantR s)) \<or>
                         user_Email x \<noteq> Email (Spec (tenantR s))) \<longrightarrow>
      fst (Run E s) = Some (AdminUserNotFound (ID (Account (Signup td)))
                    (Username (Spec (tenantR s))) (Email (Spec (tenantR s)))))"
proof -
  let ?s1 = "afterTenant E s"
  let ?P = "\<lambda>x. UserName x = Username (Spec (tenantR s)) \<and> user_Email x = Email (Spec (tenantR s))"
  let ?err = "AdminUserNotFound (ID (Account (Signup td)))
                    (Username (Spec (tenantR s))) (Email (Spec (tenantR s)))"
  have r: "tenantR ?s1 = tenantR s"
    by (simp add: afterTenant_def reconcileTenant_tenantR)
  have a: "issued ?s1 (snd (fetchAdminUser E td ?s1)) =
       [CallListUsers (ID (Account (Signup td))) [''role'' \<mapsto> ''admin'']]"
    unfolding issued_fetchAdminUser r using assms(2) by simp
  have b: "fst (fetchAdminUser E td ?s1) = (case find ?P users of Some x \<Rightarrow> Inr x | None \<Rightarrow> Inl ?err)"
    unfolding fetchAdminUser_eq findAdminUser_eq Let_def r scanUsers_find
    using assms(2,3) by (simp split: option.split)
  have c: "fst (Run E s) = Some ?err" if "\<forall>x \<in> set users. \<not> ?P x"
  proof -
    have "find ?P users = None"
      using that by (simp add: find_None_iff)
    then have "fst (fetchAdminUser E td ?s1) = Inl ?err"
      using b by simp
    then have "fst (reconcileAdminUser E td ?s1) = Inl ?err"
      by (simp add: reconcileAdminUser_fetch_fails)
    with assms(1) show ?thesis
      by (simp add: Run_admin_fails)
  qed
  show ?thesis using a b c by auto
qed

theorem admin_found_by_scanning_listed_users_witness:
  "fst (fetchAdminUser simE (mkTenant 5 (''Acme'', ''admin@acme.test'', ''acme-admin.example.com''))
          (afterTenant simE (start (tenant0 5 0) (simWith ''Acme'' ''active'' ''admin'' [\<lparr>UserKey = ''k''\<rparr>])))) =
     Inr (mkUser 7 (''active'', ''admin'', ''admin@acme.test'')) \<and>
   fst (Run simE (start (tenant0 5 0) (simWith ''Acme'' ''active'' ''root'' [\<lparr>UserKey = ''k''\<rparr>]))) =
     Some (AdminUserNotFound 5 ''admin'' ''admin@acme.test'')"
proof -
  let ?s = "\<lambda>n. start (tenant0 5 0) (simWith ''Acme'' ''active'' n [\<lparr>UserKey = ''k''\<rparr>])"
  let ?td = "mkTenant 5 (''Acme'', ''admin@acme.test'', ''acme-admin.example.com'')"
  let ?us = "\<lambda>n. [mkUser 7 (''active'', n, ''admin@acme.test'')]"
  have 1: "fst (reconcileTenant simE (?s n)) = Inr ?td" for n
    by (simp add: run_defs sim_defs)
  have 2: "AdminId (Status (tenantR (?s n))) = 0" for n
    by (simp add: sim_defs)
  have 3: "fst (ListUsers simE (world (afterTenant simE (?s n))) (ID (Account (Signup ?td)))
             [''role'' \<mapsto> ''admin'']) = Inr (?us n)" for n
    by (simp add: run_defs sim_defs)
  have 4: "\<forall>x \<in> set (?us ''root''). UserName x \<noteq> Username (Spec (tenantR (?s ''root''))) \<or>
                         user_Email x \<noteq> Email (Spec (tenantR (?s ''root'')))"
    by (simp add: sim_defs)
  show ?thesis
    using admin_found_by_scanning_listed_users [OF 1 2 3, of "''admin''"]
      admin_found_by_scanning_listed_users [OF 1 2 3, of "''root''"] 4
    by (simp add: sim_defs)
qed

text \<open>
  The fetch of the admin by id has no test for a not-found answer, unlike the lookup of
  the account and the lookup of the access token secret: whatever error it returns ends
  the run, after that one call of the stage and without any listing of users.
\<close>

lemma admin_fetch_error_ends_the_run:
  assumes "fst (reconcileTenant E s) = Inr td"
    and "AdminId (Status (tenantR s)) \<noteq> 0"
    and "fst (ReadUser E (world (afterTenant E s)) (ID (Account (Signup td)))
            (AdminId (Status (tenantR s)))) = Inl err"
  shows "fst (Run E s) = Some err \<and>
     issued (afterTenant E s) (snd (Run E s)) =
       [CallReadUser (ID (Account (Signup td))) (AdminId (Status (tenantR s)))] \<and>
     filter isListUsers (issued s (snd (Run E s))) = []"
proof -
  let ?s1 = "afterTenant E s"
  have r: "tenantR ?s1 = tenantR s"
    by (simp add: afterTenant_def reconcileTenant_tenantR)
  have f: "fst (fetchAdminUser E td ?s1) = Inl err"
    unfolding fetchAdminUser_eq r using assms(2,3) by simp
  then have a: "fst (reconcileAdminUser E td ?s1) = Inl err"
    by (simp add: reconcileAdminUser_fetch_fails)
  have run: "Run E s = (Some err, afterAdmin E td s)"
    using assms(1) a by (rule Run_admin_fails)
  have i: "issued ?s1 (afterAdmin E td s) =
      [CallReadUser (ID (Account (Signup td))) (AdminId (Status (tenantR s)))]"
    unfolding afterAdmin_def reconcileAdminUser_fetch_fails [OF f] snd_conv issued_fetchAdminUser r
    using assms(2) by simp
  have "filter isListUsers (issued s (snd (Run E s))) =
      filter isListUsers (issued ?s1 (afterAdmin E td s))"
  proof (rule Run_filter_admin [OF _ _ _ assms(1)])
    show "\<not> isListUsers c" if "tenantCall c" for c using that by (cases c) simp_all
    show "\<not> isListUsers c" if "secretCall c" for c using that by (cases c) simp_all
    show "\<not> isListUsers c" if "isStatusUpdate c" for c using that by (cases c) simp_all
  qed
  then show ?thesis
    using run i by simp
qed

text \<open>
  C2. The claim: when the record's status admin id is nonzero, a not-found answer of the
  fetch of the user by account id and user id is recovered from, the admin being located
  by listing the users, and the run does not fail. The code does not do this. Two runs
  of the code show it.

  In the first, the status names account 9 and admin 7 and the remote system holds no
  account 9 (the id is stale). The lookup of the account reports not-found and the
  account is created anew, with id 1 and a pending admin with the desired username and
  email, which a listing returns. The stale admin id is then fetched in the new account:
  not-found, and the run ends with that error after four calls, none of them a listing.
  The status is still the stale one, so the next run creates yet another account and
  fails in the same way.

  In the second, the status names account 5, which exists, and admin 9, which does not;
  the account has admin 7 with the desired username and email, which a listing returns.
  The run ends with the not-found error of the fetch and lists no users.
\<close>

theorem not_found_admin_fetch_fails_the_run:
  "AdminId (Status (tenantR (start (tenant0 9 7) simFresh))) \<noteq> 0 \<and>
   fst (Run simE (start (tenant0 9 7) simFresh)) = Some (ApiErr 404 ''Not Found'') \<and>
   porta_IsNotFound (ApiErr 404 ''Not Found'') \<and>
   calls (snd (Run simE (start (tenant0 9 7) simFresh))) =
     [CallShowTenant 9, CallGet \<lparr>nn_Name = ''pw'', nn_Namespace = ''ns1''\<rparr>,
      CallCreateTenant ''Acme'' ''admin'' ''admin@acme.test'' ''s3cret'', CallReadUser 1 7] \<and>
   fst (ListUsers simE (world (snd (Run simE (start (tenant0 9 7) simFresh)))) 1 [''role'' \<mapsto> ''admin'']) =
     Inr [mkUser 1 (''pending'', ''admin'', ''admin@acme.test'')] \<and>
   Status (tenantR (snd (Run simE (start (tenant0 9 7) simFresh)))) = \<lparr>TenantId = 9, AdminId = 7\<rparr> \<and>
   fst (Run simE (snd (Run simE (start (tenant0 9 7) simFresh)))) = Some (ApiErr 404 ''Not Found'') \<and>
   issued (snd (Run simE (start (tenant0 9 7) simFresh)))
     (snd (Run simE (snd (Run simE (start (tenant0 9 7) simFresh))))) =
     [CallShowTenant 9, CallGet \<lparr>nn_Name = ''pw'', nn_Namespace = ''ns1''\<rparr>,
      CallCreateTenant ''Acme'' ''admin'' ''admin@acme.test'' ''s3cret'', CallReadUser 2 7] \<and>
   AdminId (Status (tenantR (start (tenant0 5 9) (simWith ''Acme'' ''active'' ''admin'' [\<lparr>UserKey = ''k''\<rparr>])))) \<noteq> 0 \<and>
   fst (ReadUser simE (simWith ''Acme'' ''active'' ''admin'' [\<lparr>UserKey = ''k''\<rparr>]) 5 9) =
     Inl (ApiErr 404 ''Not Found'') \<and>
   fst (ListUsers simE (simWith ''Acme'' ''active'' ''admin'' [\<lparr>UserKey = ''k''\<rparr>]) 5 [''role'' \<mapsto> ''admin'']) =
     Inr [mkUser 7 (''active'', ''admin'', ''admin@acme.test'')] \<and>
   fst (Run simE (start (tenant0 5 9) (simWith ''Acme'' ''active'' ''admin'' [\<lparr>UserKey = ''k''\<rparr>]))) =
     Some (ApiErr 404 ''Not Found'') \<and>
   calls (snd (Run simE (start (tenant0 5 9) (simWith ''Acme'' ''active'' ''admin'' [\<lparr>UserKey = ''k''\<rparr>])))) =
     [CallShowTenant 5, CallReadUser 5 9]"
proof -
  let ?s = "start (tenant0 9 7) simFresh"
  let ?w1 = "snd (sim_CreateTenant simFresh ''Acme'' ''admin'' ''admin@acme.test'' ''s3cret'')"
  let ?c1 = "[CallShowTenant 9, CallGet \<lparr>nn_Name = ''pw'', nn_Namespace = ''ns1''\<rparr>,
      CallCreateTenant ''Acme'' ''admin'' ''admin@acme.test'' ''s3cret'', CallReadUser 1 7]"
  have run1: "Run simE ?s =
      (Some (ApiErr 404 ''Not Found''), \<lparr>tenantR = tenant0 9 7, world = ?w1, calls = ?c1\<rparr>)"
    by (simp add: run_defs sim_defs)
  let ?s1 = "\<lparr>tenantR = tenant0 9 7, world = ?w1, calls = ?c1\<rparr>"
  have list1: "fst (ListUsers simE ?w1 1 [''role'' \<mapsto> ''admin'']) =
      Inr [mkUser 1 (''pending'', ''admin'', ''admin@acme.test'')]"
    by (simp add: sim_defs)
  have run2: "fst (Run simE ?s1) = Some (ApiErr 404 ''Not Found'')"
    "calls (snd (Run simE ?s1)) = ?c1 @
       [CallShowTenant 9, CallGet \<lparr>nn_Name = ''pw'', nn_Namespace = ''ns1''\<rparr>,
        CallCreateTenant ''Acme'' ''admin'' ''admin@acme.test'' ''s3cret'', CallReadUser 2 7]"
    by (simp_all add: run_defs sim_defs Let_def)
  have i2: "issued ?s1 (snd (Run simE ?s1)) =
      [CallShowTenant 9, CallGet \<lparr>nn_Name = ''pw'', nn_Namespace = ''ns1''\<rparr>,
       CallCreateTenant ''Acme'' ''admin'' ''admin@acme.test'' ''s3cret'', CallReadUser 2 7]"
    by (rule issued_append) (simp add: run2(2))
  let ?s' = "start (tenant0 5 9) (simWith ''Acme'' ''active'' ''admin'' [\<lparr>UserKey = ''k''\<rparr>])"
  have run3: "fst (Run simE ?s') = Some (ApiErr 404 ''Not Found'')"
    "calls (snd (Run simE ?s')) = [CallShowTenant 5, CallReadUser 5 9]"
    by (simp_all add: run_defs sim_defs)
  have rest: "AdminId (Status (tenantR ?s)) \<noteq> 0" "AdminId (Status (tenantR ?s')) \<noteq> 0"
    "fst (ReadUser simE (simWith ''Acme'' ''active'' ''admin'' [\<lparr>UserKey = ''k''\<rparr>]) 5 9) =
       Inl (ApiErr 404 ''Not Found'')"
    "fst (ListUsers simE (simWith ''Acme'' ''active'' ''admin'' [\<lparr>UserKey = ''k''\<rparr>]) 5 [''role'' \<mapsto> ''admin'']) =
       Inr [mkUser 7 (''active'', ''admin'', ''admin@acme.test'')]"
    "Status (tenant0 9 7) = \<lparr>TenantId = 9, AdminId = 7\<rparr>"
    by (simp_all add: sim_defs)
  show ?thesis
    unfolding run1 snd_conv fst_conv
    using list1 run2(1) i2 run3 rest by simp
qed


section \<open>The access token secret and the failing status update\<close>

lemma findAccessTokenSecret_eq:
  "findAccessTokenSecret E nn s =
     (case fst (k8sGet E (world s) nn) of
        Inl err \<Rightarrow> if errors_IsNotFound err then Inr None else Inl err
      | Inr secret \<Rightarrow> Inr (Some secret),
      s\<lparr>world := snd (k8sGet E (world s) nn), calls := calls s @ [CallGet nn]\<rparr>)"
  unfolding findAccessTokenSecret_def invoke_eq by (simp split: sum.split)

lemma findTenantProviderKey_eq:
  "findTenantProviderKey E td s =
     (case fst (ListApplications E (world s) (ID (Account (Signup td)))) of
        Inl err \<Rightarrow> Inl err
      | Inr apps \<Rightarrow>
          if length apps \<noteq> 1 then Inl (UnexpectedApplicationList (ID (Account (Signup td))))
          else Inr (UserKey (apps ! 0)),
      s\<lparr>world := snd (ListApplications E (world s) (ID (Account (Signup td)))),
        calls := calls s @ [CallListApplications (ID (Account (Signup td)))]\<rparr>)"
  unfolding findTenantProviderKey_def invoke_eq by (simp split: sum.split)

lemma createTenantProviderKeySecret_no_key:
  "fst (findTenantProviderKey E td s) = Inl err \<Longrightarrow>
   createTenantProviderKeySecret E td nn s = (Some err, snd (findTenantProviderKey E td s))"
  unfolding createTenantProviderKeySecret_def split_beta by simp

lemma reconcileAccessTokenSecret_absent:
  "fst (findAccessTokenSecret E (tenantSecretName (tenantR s)) s) = Inr None \<Longrightarrow>
   reconcileAccessTokenSecret E td s =
     createTenantProviderKeySecret E td (tenantSecretName (tenantR s))
       (snd (findAccessTokenSecret E (tenantSecretName (tenantR s)) s))"
  unfolding reconcileAccessTokenSecret_def split_beta Let_def tenantSecretName_def by simp

lemma secret_stage_wrong_application_count:
  assumes "fst (k8sGet E (world s) (tenantSecretName (tenantR s))) = Inl e"
    and "errors_IsNotFound e"
    and "fst (ListApplications E (snd (k8sGet E (world s) (tenantSecretName (tenantR s))))
            (ID (Account (Signup td)))) = Inr apps"
    and "length apps \<noteq> 1"
  shows "reconcileAccessTokenSecret E td s =
     (Some (UnexpectedApplicationList (ID (Account (Signup td)))),
      s\<lparr>world := snd (ListApplications E (snd (k8sGet E (world s) (tenantSecretName (tenantR s))))
            (ID (Account (Signup td)))),
        calls := calls s @ [CallGet (tenantSecretName (tenantR s)),
                            CallListApplications (ID (Account (Signup td)))]\<rparr>)"
proof -
  let ?nn = "tenantSecretName (tenantR s)"
  let ?s' = "snd (findAccessTokenSecret E ?nn s)"
  have f: "fst (findAccessTokenSecret E ?nn s) = Inr None"
    unfolding findAccessTokenSecret_eq using assms(1,2) by simp
  have s': "?s' = s\<lparr>world := snd (k8sGet E (world s) ?nn), calls := calls s @ [CallGet ?nn]\<rparr>"
    unfolding findAccessTokenSecret_eq by simp
  have k: "fst (findTenantProviderKey E td ?s') =
      Inl (UnexpectedApplicationList (ID (Account (Signup td))))"
    unfolding findTenantProviderKey_eq s' using assms(3,4) by simp
  show ?thesis
    unfolding reconcileAccessTokenSecret_absent [OF f] createTenantProviderKeySecret_no_key [OF k]
    unfolding findTenantProviderKey_eq s' by simp
qed

text \<open>
  C6. Take a run that reaches the creation of the access token secret: the lookup of the
  secret reports not-found. If the list of applications of the account then has a length
  other than one (none, or two or more), the run fails with the error that names the
  account id. The secret stage has then made two calls, the lookup and the listing, the
  whole run has made no secret-create call, and the world at the end of the run is the
  one the listing left: nothing was written to the secret store.
\<close>

theorem wrong_application_count_fails_without_secret:
  assumes "fst (reconcileTenant E s) = Inr td"
    and "fst (reconcileAdminUser E td (afterTenant E s)) = Inr u"
    and "fst (k8sGet E (world (afterAdmin E td s)) (tenantSecretName (tenantR s))) = Inl e"
    and "errors_IsNotFound e"
    and "fst (ListApplications E
            (snd (k8sGet E (world (afterAdmin E td s)) (tenantSecretName (tenantR s))))
            (ID (Account (Signup td)))) = Inr apps"
    and "length apps \<noteq> 1"
  shows "fst (Run E s) = Some (UnexpectedApplicationList (ID (Account (Signup td)))) \<and>
     issued (afterAdmin E td s) (snd (Run E s)) =
       [CallGet (tenantSecretName (tenantR s)), CallListApplications (ID (Account (Signup td)))] \<and>
     filter isCreate (issued s (snd (Run E s))) = [] \<and>
     world (snd (Run E s)) =
       snd (ListApplications E
              (snd (k8sGet E (world (afterAdmin E td s)) (tenantSecretName (tenantR s))))
              (ID (Account (Signup td))))"
proof -
  let ?s2 = "afterAdmin E td s"
  have r: "tenantR ?s2 = tenantR s"
    by (simp add: afterAdmin_def afterTenant_def reconcileAdminUser_tenantR reconcileTenant_tenantR)
  note st = secret_stage_wrong_application_count [of E ?s2 e td apps, unfolded r, OF assms(3-6)]
  have run: "Run E s = (Some (UnexpectedApplicationList (ID (Account (Signup td)))), afterSecret E td s)"
    using assms(1,2) st by (simp add: Run_secret_fails)
  have i: "issued ?s2 (afterSecret E td s) =
      [CallGet (tenantSecretName (tenantR s)), CallListApplications (ID (Account (Signup td)))]"
    unfolding afterSecret_def st by (rule issued_append) simp
  have "filter isCreate (issued s (snd (Run E s))) = filter isCreate (issued ?s2 (afterSecret E td s))"
  proof (rule Run_filter_secret [OF _ _ _ assms(1,2)])
    show "\<not> isCreate c" if "tenantCall c" for c using that by (cases c) simp_all
    show "\<not> isCreate c" if "userCall c" for c using that by (cases c) simp_all
    show "\<not> isCreate c" if "isStatusUpdate c" for c using that by (cases c) simp_all
  qed
  then show ?thesis
    unfolding run using i by (simp add: afterSecret_def st)
qed

theorem wrong_application_count_fails_without_secret_witness:
  "fst (Run simE (start (tenant0 5 7) (simWith ''Acme'' ''active'' ''admin'' []))) =
     Some (UnexpectedApplicationList 5) \<and>
   sim_secrets (world (snd (Run simE (start (tenant0 5 7) (simWith ''Acme'' ''active'' ''admin'' []))))) =
     sim_secrets (simWith ''Acme'' ''active'' ''admin'' []) \<and>
   fst (Run simE (start (tenant0 5 7)
          (simWith ''Acme'' ''active'' ''admin'' [\<lparr>UserKey = ''k1''\<rparr>, \<lparr>UserKey = ''k2''\<rparr>]))) =
     Some (UnexpectedApplicationList 5)"
proof -
  let ?w = "\<lambda>apps. simWith ''Acme'' ''active'' ''admin'' apps"
  let ?s = "\<lambda>apps. start (tenant0 5 7) (?w apps)"
  let ?td = "mkTenant 5 (''Acme'', ''admin@acme.test'', ''acme-admin.example.com'')"
  let ?u = "mkUser 7 (''active'', ''admin'', ''admin@acme.test'')"
  let ?e = "StatusError ''NotFound'' ''acme-token''"
  let ?nn = "\<lparr>nn_Name = ''acme-token'', nn_Namespace = ''ns1''\<rparr>"
  have 1: "fst (reconcileTenant simE (?s apps)) = Inr ?td" for apps
    by (simp add: run_defs sim_defs)
  have 2: "fst (reconcileAdminUser simE ?td (afterTenant simE (?s apps))) = Inr ?u" for apps
    by (simp add: run_defs sim_defs)
  have w: "world (afterAdmin simE ?td (?s apps)) = ?w apps" for apps
    by (simp add: run_defs sim_defs)
  have n: "tenantSecretName (tenantR (?s apps)) = ?nn" for apps
    by (simp add: tenantSecretName_def start_def tenant0_def spec0_def)
  have g: "k8sGet simE (?w apps) ?nn = (Inl ?e, ?w apps)" for apps
    by (simp add: sim_defs)
  have 3: "fst (k8sGet simE (world (afterAdmin simE ?td (?s apps)))
             (tenantSecretName (tenantR (?s apps)))) = Inl ?e" for apps
    unfolding w n g by simp
  have 4: "errors_IsNotFound ?e"
    by simp
  have l: "ListApplications simE (?w apps) 5 = (Inr apps, ?w apps)" for apps
    by (simp add: sim_defs)
  have i: "ID (Account (Signup ?td)) = 5"
    by (simp add: mkTenant_def)
  have 5: "fst (ListApplications simE
            (snd (k8sGet simE (world (afterAdmin simE ?td (?s apps))) (tenantSecretName (tenantR (?s apps)))))
            (ID (Account (Signup ?td)))) = Inr apps" for apps
    unfolding w n g i snd_conv l by simp
  have 6: "length ([] :: Application list) \<noteq> 1" "length [\<lparr>UserKey = ''k1''\<rparr>, \<lparr>UserKey = ''k2''\<rparr>] \<noteq> 1"
    by simp_all
  note a = wrong_application_count_fails_without_secret [OF 1 2 3 4 5 6(1), unfolded w n g i snd_conv l]
  note b = wrong_application_count_fails_without_secret [OF 1 2 3 4 5 6(2), unfolded w n g i snd_conv l]
  show ?thesis
    using a b by simp
qed

text \<open>
  C10. When the candidate status differs from the status of the record and the status
  update of the store fails, the run returns the error of the store, and the record in
  memory holds the candidate status all the same: the record was overwritten before the
  call, and the call was made with the overwritten record.
\<close>

theorem failed_status_update_leaves_new_status:
  assumes "fst (reconcileTenant E s) = Inr td"
    and "fst (reconcileAdminUser E td (afterTenant E s)) = Inr u"
    and "fst (reconcileAccessTokenSecret E td (afterAdmin E td s)) = None"
    and "Status (tenantR s) \<noteq> getTenantStatus td u"
    and "fst (k8sStatusUpdate E (world (afterSecret E td s))
            ((tenantR s)\<lparr>Status := getTenantStatus td u\<rparr>)) = Some err"
  shows "fst (Run E s) = Some err \<and>
     Status (tenantR (snd (Run E s))) = getTenantStatus td u \<and>
     issued (afterSecret E td s) (snd (Run E s)) =
       [CallStatusUpdate ((tenantR s)\<lparr>Status := getTenantStatus td u\<rparr>)]"
proof -
  have r: "tenantR (afterSecret E td s) = tenantR s"
    by (rule afterSecret_tenantR)
  have run: "Run E s = updateTenantStatus E (getTenantStatus td u) (afterSecret E td s)"
    using assms(1-3) by (rule Run_status)
  have i: "issued (afterSecret E td s) (snd (updateTenantStatus E (getTenantStatus td u) (afterSecret E td s))) =
       [CallStatusUpdate ((tenantR s)\<lparr>Status := getTenantStatus td u\<rparr>)]"
    by (rule issued_append) (use assms(4) r in \<open>simp add: updateTenantStatus_def invoke_eq Let_def\<close>)
  show ?thesis
    unfolding run using i assms(4,5) r
    by (simp add: updateTenantStatus_def invoke_eq Let_def)
qed

theorem failed_status_update_leaves_new_status_witness:
  "fst (Run simE_statusFails (start (tenant0 5 0) (simWith ''Acme'' ''active'' ''admin'' [\<lparr>UserKey = ''k''\<rparr>]))) =
     Some (StatusError ''Conflict'' ''acme'') \<and>
   Status (tenantR (start (tenant0 5 0) (simWith ''Acme'' ''active'' ''admin'' [\<lparr>UserKey = ''k''\<rparr>]))) =
     \<lparr>TenantId = 5, AdminId = 0\<rparr> \<and>
   Status (tenantR (snd (Run simE_statusFails
     (start (tenant0 5 0) (simWith ''Acme'' ''active'' ''admin'' [\<lparr>UserKey = ''k''\<rparr>]))))) =
     \<lparr>TenantId = 5, AdminId = 7\<rparr>"
proof -
  let ?s = "start (tenant0 5 0) (simWith ''Acme'' ''active'' ''admin'' [\<lparr>UserKey = ''k''\<rparr>])"
  let ?td = "mkTenant 5 (''Acme'', ''admin@acme.test'', ''acme-admin.example.com'')"
  let ?u = "mkUser 7 (''active'', ''admin'', ''admin@acme.test'')"
  have 1: "fst (reconcileTenant simE_statusFails ?s) = Inr ?td"
    by (simp add: run_defs sim_defs)
  have 2: "fst (reconcileAdminUser simE_statusFails ?td (afterTenant simE_statusFails ?s)) = Inr ?u"
    by (simp add: run_defs sim_defs)
  have 3: "fst (reconcileAccessTokenSecret simE_statusFails ?td (afterAdmin simE_statusFails ?td ?s)) = None"
    by (simp add: run_defs sim_defs)
  have 4: "Status (tenantR ?s) \<noteq> getTenantStatus ?td ?u"
    by (simp add: run_defs sim_defs)
  have 5: "fst (k8sStatusUpdate simE_statusFails (world (afterSecret simE_statusFails ?td ?s))
            ((tenantR ?s)\<lparr>Status := getTenantStatus ?td ?u\<rparr>)) = Some (StatusError ''Conflict'' ''acme'')"
    by (simp add: sim_defs)
  show ?thesis
    using failed_status_update_leaves_new_status [OF 1 2 3 4 5]
    by (simp add: sim_defs getTenantStatus_def)
qed

section \<open>Account creation\<close>

lemma getAdminPassword_eq:
  "getAdminPassword E s =
     (let nn = passwordSecretName (tenantR s); g = k8sGet E (world s) nn
      in (case fst g of
            Inl err \<Rightarrow> Inl err
          | Inr secret \<Rightarrow>
              (case Data secret (TenantAdminPasswordSecretField E) of
                 None \<Rightarrow> Inl (AdminPasswordAttributeNotFound (Namespace (tenantR s))
                           (ref_Name (PasswordCredentialsRef (Spec (tenantR s))))
                           (TenantAdminPasswordSecretField E))
               | Some password \<Rightarrow> Inr password),
          s\<lparr>world := snd g, calls := calls s @ [CallGet nn]\<rparr>))"
  unfolding getAdminPassword_def invoke_eq Let_def passwordSecretName_def
  by (simp split: sum.split option.split)

lemma createTenant_eq:
  "createTenant E s =
     (let s1 = snd (getAdminPassword E s) in
      case fst (getAdminPassword E s) of
        Inl err \<Rightarrow> (Inl err, s1)
      | Inr password \<Rightarrow>
          (fst (CreateTenant E (world s1) (OrganizationName (Spec (tenantR s)))
                  (Username (Spec (tenantR s))) (Email (Spec (tenantR s))) password),
           s1\<lparr>world := snd (CreateTenant E (world s1) (OrganizationName (Spec (tenantR s)))
                  (Username (Spec (tenantR s))) (Email (Spec (tenantR s))) password),
              calls := calls s1 @ [CallCreateTenant (OrganizationName (Spec (tenantR s)))
                  (Username (Spec (tenantR s))) (Email (Spec (tenantR s))) password]\<rparr>))"
  unfolding createTenant_def invoke_eq split_beta Let_def
  by (simp add: getAdminPassword_tenantR split: sum.split)

lemma issued_getAdminPassword:
  "issued s (snd (getAdminPassword E s)) = [CallGet (passwordSecretName (tenantR s))]"
  by (rule issued_append) (simp add: getAdminPassword_eq Let_def)

lemma issued_createTenant:
  "issued s (snd (createTenant E s)) =
     CallGet (passwordSecretName (tenantR s)) #
     (case fst (getAdminPassword E s) of
        Inl err \<Rightarrow> []
      | Inr password \<Rightarrow>
          [CallCreateTenant (OrganizationName (Spec (tenantR s)))
             (Username (Spec (tenantR s))) (Email (Spec (tenantR s))) password])"
proof (rule issued_append)
  have "calls (snd (getAdminPassword E s)) = calls s @ [CallGet (passwordSecretName (tenantR s))]"
    by (simp add: getAdminPassword_eq Let_def)
  then show "calls (snd (createTenant E s)) = calls s @
     CallGet (passwordSecretName (tenantR s)) #
     (case fst (getAdminPassword E s) of
        Inl err \<Rightarrow> []
      | Inr password \<Rightarrow>
          [CallCreateTenant (OrganizationName (Spec (tenantR s)))
             (Username (Spec (tenantR s))) (Email (Spec (tenantR s))) password])"
    unfolding createTenant_eq Let_def by (simp split: sum.split)
qed

lemma fetchTenant_absent_iff: "fst (fetchTenant E s) = Inr None \<longleftrightarrow> accountAbsent E s"
  unfolding fetchTenant_eq accountAbsent_def Let_def by (simp split: sum.split)

lemma issued_fetchTenant:
  "issued s (snd (fetchTenant E s)) =
     (if TenantId (Status (tenantR s)) = 0 then []
      else [CallShowTenant (TenantId (Status (tenantR s)))])"
  by (rule issued_append) (simp add: fetchTenant_eq Let_def)

lemma fetchTenant_ext:
  "calls (snd (fetchTenant E s)) = calls s @ issued s (snd (fetchTenant E s))"
  unfolding issued_fetchTenant by (simp add: fetchTenant_eq Let_def)

lemma createTenant_ext:
  "calls (snd (createTenant E s)) = calls s @ issued s (snd (createTenant E s))"
proof -
  have "calls (snd (getAdminPassword E s)) = calls s @ [CallGet (passwordSecretName (tenantR s))]"
    by (simp add: getAdminPassword_eq Let_def)
  then show ?thesis
    unfolding issued_createTenant unfolding createTenant_eq Let_def by (simp split: sum.split)
qed

lemma reconcileTenant_absent:
  "fst (fetchTenant E s) = Inr None \<Longrightarrow> reconcileTenant E s = createTenant E (snd (fetchTenant E s))"
  unfolding reconcileTenant_def split_beta by simp

lemma reconcileTenant_fetch_fails:
  "fst (fetchTenant E s) = Inl err \<Longrightarrow> reconcileTenant E s = (Inl err, snd (fetchTenant E s))"
  unfolding reconcileTenant_def split_beta by simp

lemma issued_tenant_absent:
  assumes "accountAbsent E s"
  shows "issued s (afterTenant E s) =
     (if TenantId (Status (tenantR s)) = 0 then []
      else [CallShowTenant (TenantId (Status (tenantR s)))]) @
     CallGet (passwordSecretName (tenantR s)) #
     (case fst (getAdminPassword E (snd (fetchTenant E s))) of
        Inl err \<Rightarrow> []
      | Inr password \<Rightarrow>
          [CallCreateTenant (OrganizationName (Spec (tenantR s)))
             (Username (Spec (tenantR s))) (Email (Spec (tenantR s))) password])"
proof -
  have f: "fst (fetchTenant E s) = Inr None"
    using assms by (simp add: fetchTenant_absent_iff)
  have "issued s (afterTenant E s) =
      issued s (snd (fetchTenant E s)) @
      issued (snd (fetchTenant E s)) (snd (createTenant E (snd (fetchTenant E s))))"
    unfolding afterTenant_def reconcileTenant_absent [OF f]
    using issued_chain [OF fetchTenant_ext createTenant_ext] by blast
  then show ?thesis
    unfolding issued_fetchTenant issued_createTenant fetchTenant_tenantR by simp
qed

lemma issued_tenant_fetch_fails:
  assumes "fst (fetchTenant E s) = Inl err"
  shows "issued s (afterTenant E s) = [CallShowTenant (TenantId (Status (tenantR s)))]"
proof -
  have "TenantId (Status (tenantR s)) \<noteq> 0"
    using assms unfolding fetchTenant_eq Let_def by (auto split: if_splits)
  then show ?thesis
    unfolding afterTenant_def reconcileTenant_fetch_fails [OF assms] snd_conv issued_fetchTenant
    by simp
qed

lemma fetchTenant_cases:
  obtains (absent) "fst (fetchTenant E s) = Inr None"
  | (found) td where "fst (fetchTenant E s) = Inr (Some td)"
  | (failed) err where "fst (fetchTenant E s) = Inl err"
proof (cases "fst (fetchTenant E s)")
  case (Inl err)
  then show ?thesis by (rule failed)
next
  case (Inr x)
  then show ?thesis
    by (cases x) (auto intro: absent found)
qed

lemma filter_create_tenant_stage:
  "filter isCreateTenant (issued s (afterTenant E s)) =
     (if accountAbsent E s then
        (case fst (getAdminPassword E (snd (fetchTenant E s))) of
           Inl err \<Rightarrow> []
         | Inr password \<Rightarrow>
             [CallCreateTenant (OrganizationName (Spec (tenantR s)))
                (Username (Spec (tenantR s))) (Email (Spec (tenantR s))) password])
      else [])"
proof (cases rule: fetchTenant_cases [of E s])
  case absent
  then have a: "accountAbsent E s" by (simp add: fetchTenant_absent_iff)
  show ?thesis
    unfolding issued_tenant_absent [OF a] using a
    by (simp add: passwordSecretName_def split: sum.split)
next
  case (found td)
  then have a: "\<not> accountAbsent E s" by (simp add: fetchTenant_absent_iff [symmetric])
  show ?thesis
    unfolding issued_tenant_found [OF found] using a by simp
next
  case (failed err)
  then have a: "\<not> accountAbsent E s" by (simp add: fetchTenant_absent_iff [symmetric])
  show ?thesis
    unfolding issued_tenant_fetch_fails [OF failed] using a by simp
qed

lemma Run_filter_create_tenant:
  "filter isCreateTenant (issued s (snd (Run E s))) = filter isCreateTenant (issued s (afterTenant E s))"
proof (rule Run_filter_tenant)
  show "\<not> isCreateTenant c" if "userCall c" for c using that by (cases c) simp_all
  show "\<not> isCreateTenant c" if "secretCall c" for c using that by (cases c) simp_all
  show "\<not> isCreateTenant c" if "isStatusUpdate c" for c using that by (cases c) simp_all
qed

text \<open>
  C1, as amended. The account creation calls of a whole run are known exactly: there is
  one, with the organization name, username and email of the spec and the password read
  from the secret, when the account is absent (the status account id is zero, or the
  lookup by that id reports not-found) and the password has been read; there is none
  otherwise. When the account is absent and the password cannot be read, the run ends
  with the error of that read. A lookup error other than not-found ends the run with
  that error, the lookup being the only call of the run.
  (The claim as stated, creation exactly when the account is absent, fails where the
  password secret is missing: see the counterexample below.)
\<close>

theorem account_created_when_absent_and_password_read:
  "filter isCreateTenant (issued s (snd (Run E s))) =
     (if accountAbsent E s then
        (case fst (getAdminPassword E (snd (fetchTenant E s))) of
           Inl err \<Rightarrow> []
         | Inr password \<Rightarrow>
             [CallCreateTenant (OrganizationName (Spec (tenantR s)))
                (Username (Spec (tenantR s))) (Email (Spec (tenantR s))) password])
      else []) \<and>
   (\<forall>err. accountAbsent E s \<and> fst (getAdminPassword E (snd (fetchTenant E s))) = Inl err \<longrightarrow>
      fst (Run E s) = Some err) \<and>
   (\<forall>err. TenantId (Status (tenantR s)) \<noteq> 0 \<and>
      fst (ShowTenant E (world s) (TenantId (Status (tenantR s)))) = Inl err \<and>
      \<not> porta_IsNotFound err \<longrightarrow>
      fst (Run E s) = Some err \<and>
      issued s (snd (Run E s)) = [CallShowTenant (TenantId (Status (tenantR s)))])"
proof (intro conjI allI impI)
  show "filter isCreateTenant (issued s (snd (Run E s))) =
     (if accountAbsent E s then
        (case fst (getAdminPassword E (snd (fetchTenant E s))) of
           Inl err \<Rightarrow> []
         | Inr password \<Rightarrow>
             [CallCreateTenant (OrganizationName (Spec (tenantR s)))
                (Username (Spec (tenantR s))) (Email (Spec (tenantR s))) password])
      else [])"
    unfolding Run_filter_create_tenant by (rule filter_create_tenant_stage)
next
  fix err
  assume a: "accountAbsent E s \<and> fst (getAdminPassword E (snd (fetchTenant E s))) = Inl err"
  then have f: "fst (fetchTenant E s) = Inr None"
    by (simp add: fetchTenant_absent_iff)
  have "fst (reconcileTenant E s) = Inl err"
    unfolding reconcileTenant_absent [OF f] createTenant_eq Let_def using a by simp
  then show "fst (Run E s) = Some err"
    by (simp add: Run_tenant_fails)
next
  fix err
  assume a: "TenantId (Status (tenantR s)) \<noteq> 0 \<and>
      fst (ShowTenant E (world s) (TenantId (Status (tenantR s)))) = Inl err \<and>
      \<not> porta_IsNotFound err"
  then have f: "fst (fetchTenant E s) = Inl err"
    unfolding fetchTenant_eq Let_def by simp
  then have t: "fst (reconcileTenant E s) = Inl err"
    by (simp add: reconcileTenant_fetch_fails)
  then have run: "Run E s = (Some err, afterTenant E s)"
    by (rule Run_tenant_fails)
  show "fst (Run E s) = Some err"
    using run by simp
  show "issued s (snd (Run E s)) = [CallShowTenant (TenantId (Status (tenantR s)))]"
    unfolding run snd_conv by (rule issued_tenant_fetch_fails [OF f])
qed

theorem account_created_when_absent_and_password_read_witness:
  "filter isCreateTenant (issued (start (tenant0 0 0) simFresh) (snd (Run simE (start (tenant0 0 0) simFresh)))) =
     [CallCreateTenant ''Acme'' ''admin'' ''admin@acme.test'' ''s3cret''] \<and>
   fst (Run simE (start (tenant0 0 0) simEmpty)) = Some (StatusError ''NotFound'' ''pw'') \<and>
   fst (Run simE_showFails (start (tenant0 5 7) simFresh)) = Some (ApiErr 500 ''Internal Server Error'') \<and>
   issued (start (tenant0 5 7) simFresh) (snd (Run simE_showFails (start (tenant0 5 7) simFresh))) =
     [CallShowTenant 5]"
proof -
  let ?s = "start (tenant0 0 0) simFresh"
  let ?s' = "start (tenant0 0 0) simEmpty"
  let ?s'' = "start (tenant0 5 7) simFresh"
  have 1: "accountAbsent simE ?s" "accountAbsent simE ?s'"
    by (simp_all add: accountAbsent_def sim_defs)
  have 2: "fst (getAdminPassword simE (snd (fetchTenant simE ?s))) = Inr ''s3cret''"
    by (simp add: run_defs sim_defs)
  have 3: "fst (getAdminPassword simE (snd (fetchTenant simE ?s'))) = Inl (StatusError ''NotFound'' ''pw'')"
    by (simp add: run_defs sim_defs)
  have 4: "TenantId (Status (tenantR ?s'')) \<noteq> 0 \<and>
      fst (ShowTenant simE_showFails (world ?s'') (TenantId (Status (tenantR ?s'')))) =
        Inl (ApiErr 500 ''Internal Server Error'') \<and>
      \<not> porta_IsNotFound (ApiErr 500 ''Internal Server Error'')"
    by (simp add: sim_defs)
  show ?thesis
    using account_created_when_absent_and_password_read [of ?s simE]
      account_created_when_absent_and_password_read [of ?s' simE]
      account_created_when_absent_and_password_read [of ?s'' simE_showFails] 1 2 3 4
    by (simp add: sim_defs)
qed

text \<open>
  The status account id is zero and the store holds no password secret: the run ends
  with the error of the lookup of that secret and makes no account creation call.
\<close>

theorem absent_account_not_created_without_password_counterexample:
  "TenantId (Status (tenantR (start (tenant0 0 0) simEmpty))) = 0 \<and>
   filter isCreateTenant (calls (snd (Run simE (start (tenant0 0 0) simEmpty)))) = [] \<and>
   fst (Run simE (start (tenant0 0 0) simEmpty)) = Some (StatusError ''NotFound'' ''pw'')"
  by (simp add: run_defs sim_defs)

lemma unique_split:
  "\<forall>x \<in> set A. \<not> P x \<Longrightarrow> \<forall>x \<in> set R. \<not> P x \<Longrightarrow> P c \<Longrightarrow>
   A @ C # R = pre @ c # post \<Longrightarrow> pre = A"
  by (induction A arbitrary: pre) (auto simp: Cons_eq_append_conv)

lemma Run_issued_split:
  "\<exists>rest. issued s (snd (Run E s)) = issued s (afterTenant E s) @ rest \<and>
     (\<forall>c \<in> set rest. \<not> isCreateTenant c)"
proof -
  have "filter isCreateTenant (drop (length (issued s (afterTenant E s))) (issued s (snd (Run E s)))) = []"
    (is "filter _ ?rest = []")
    using Run_filter_create_tenant [of s E] unfolding Run_issued [of s E] by simp
  moreover have "issued s (snd (Run E s)) = issued s (afterTenant E s) @ ?rest"
    unfolding Run_issued [of s E] by simp
  ultimately show ?thesis
    by (metis filter_empty_conv)
qed

text \<open>
  C9. The password is read by one lookup of a secret whose name is the name in the
  password reference and whose namespace is the namespace of the tenant record. The
  namespace in the reference plays no part: with any other namespace there, the result,
  the world and the calls are the same. In a whole run, every account creation call is
  immediately preceded by that lookup.
\<close>

theorem password_secret_read_in_record_namespace:
  "issued s (snd (getAdminPassword E s)) =
     [CallGet \<lparr>nn_Name = ref_Name (PasswordCredentialsRef (Spec (tenantR s))),
               nn_Namespace = Namespace (tenantR s)\<rparr>] \<and>
   fst (getAdminPassword E (withPasswordNamespace ns s)) = fst (getAdminPassword E s) \<and>
   world (snd (getAdminPassword E (withPasswordNamespace ns s))) = world (snd (getAdminPassword E s)) \<and>
   calls (snd (getAdminPassword E (withPasswordNamespace ns s))) = calls (snd (getAdminPassword E s)) \<and>
   (\<forall>c pre post. isCreateTenant c \<and> issued s (snd (Run E s)) = pre @ c # post \<longrightarrow>
      (\<exists>pre'. pre = pre' @ [CallGet \<lparr>nn_Name = ref_Name (PasswordCredentialsRef (Spec (tenantR s))),
                                      nn_Namespace = Namespace (tenantR s)\<rparr>]))"
proof (intro conjI allI impI)
  show "issued s (snd (getAdminPassword E s)) =
     [CallGet \<lparr>nn_Name = ref_Name (PasswordCredentialsRef (Spec (tenantR s))),
               nn_Namespace = Namespace (tenantR s)\<rparr>]"
    unfolding issued_getAdminPassword passwordSecretName_def by simp
  show "fst (getAdminPassword E (withPasswordNamespace ns s)) = fst (getAdminPassword E s)"
    unfolding getAdminPassword_eq Let_def passwordSecretName_def withPasswordNamespace_def
    by (simp split: sum.split option.split)
  show "world (snd (getAdminPassword E (withPasswordNamespace ns s))) = world (snd (getAdminPassword E s))"
    unfolding getAdminPassword_eq Let_def passwordSecretName_def withPasswordNamespace_def by simp
  show "calls (snd (getAdminPassword E (withPasswordNamespace ns s))) = calls (snd (getAdminPassword E s))"
    unfolding getAdminPassword_eq Let_def passwordSecretName_def withPasswordNamespace_def by simp
next
  fix c pre post
  let ?G = "CallGet \<lparr>nn_Name = ref_Name (PasswordCredentialsRef (Spec (tenantR s))),
                      nn_Namespace = Namespace (tenantR s)\<rparr>"
  assume a: "isCreateTenant c \<and> issued s (snd (Run E s)) = pre @ c # post"
  obtain rest where rest: "issued s (snd (Run E s)) = issued s (afterTenant E s) @ rest"
    "\<forall>c \<in> set rest. \<not> isCreateTenant c"
    using Run_issued_split by blast
  show "\<exists>pre'. pre = pre' @ [?G]"
  proof (cases rule: fetchTenant_cases [of E s])
    case absent
    then have ab: "accountAbsent E s" by (simp add: fetchTenant_absent_iff)
    let ?sh = "if TenantId (Status (tenantR s)) = 0 then []
      else [CallShowTenant (TenantId (Status (tenantR s)))]"
    show ?thesis
    proof (cases "fst (getAdminPassword E (snd (fetchTenant E s)))")
      case (Inl err)
      have "\<forall>x \<in> set (issued s (snd (Run E s))). \<not> isCreateTenant x"
        unfolding rest(1) issued_tenant_absent [OF ab] using Inl rest(2) by auto
      then show ?thesis using a by auto
    next
      case (Inr password)
      let ?C = "CallCreateTenant (OrganizationName (Spec (tenantR s)))
             (Username (Spec (tenantR s))) (Email (Spec (tenantR s))) password"
      have L: "(?sh @ [?G]) @ ?C # rest = pre @ c # post"
        using a rest(1) unfolding issued_tenant_absent [OF ab] Inr passwordSecretName_def by simp
      have "pre = ?sh @ [?G]"
      proof (rule unique_split [OF _ rest(2) _ L])
        show "\<forall>x \<in> set (?sh @ [?G]). \<not> isCreateTenant x" by simp
        show "isCreateTenant c" using a by simp
      qed
      then show ?thesis by blast
    qed
  next
    case (found td)
    have "\<forall>x \<in> set (issued s (snd (Run E s))). \<not> isCreateTenant x"
      unfolding rest(1) issued_tenant_found [OF found] using rest(2) by auto
    then show ?thesis using a by auto
  next
    case (failed err)
    have "\<forall>x \<in> set (issued s (snd (Run E s))). \<not> isCreateTenant x"
      unfolding rest(1) issued_tenant_fetch_fails [OF failed] using rest(2) by auto
    then show ?thesis using a by auto
  qed
qed

theorem password_secret_read_in_record_namespace_witness:
  "ref_Namespace (PasswordCredentialsRef (Spec (tenantR (start (tenant0 0 0) simFresh)))) = ''other'' \<and>
   issued (start (tenant0 0 0) simFresh) (snd (getAdminPassword simE (start (tenant0 0 0) simFresh))) =
     [CallGet \<lparr>nn_Name = ''pw'', nn_Namespace = ''ns1''\<rparr>] \<and>
   fst (getAdminPassword simE (withPasswordNamespace ''ns1'' (start (tenant0 0 0) simFresh))) = Inr ''s3cret'' \<and>
   take 2 (issued (start (tenant0 0 0) simFresh) (snd (Run simE (start (tenant0 0 0) simFresh)))) =
     [CallGet \<lparr>nn_Name = ''pw'', nn_Namespace = ''ns1''\<rparr>,
      CallCreateTenant ''Acme'' ''admin'' ''admin@acme.test'' ''s3cret'']"
proof -
  let ?s = "start (tenant0 0 0) simFresh"
  have 1: "fst (getAdminPassword simE ?s) = Inr ''s3cret''"
    by (simp add: run_defs sim_defs)
  have 2: "take 2 (issued ?s (snd (Run simE ?s))) =
     [CallGet \<lparr>nn_Name = ''pw'', nn_Namespace = ''ns1''\<rparr>,
      CallCreateTenant ''Acme'' ''admin'' ''admin@acme.test'' ''s3cret'']"
    by (simp add: run_defs sim_defs)
  show ?thesis
    using password_secret_read_in_record_namespace [of ?s simE "''ns1''"] 1 2
    by (simp add: sim_defs)
qed


section \<open>Two runs in a row\<close>

subsection \<open>The reference world is faithful\<close>

lemma faithful_simE_reads: "readsChangeNothing simE"
  unfolding readsChangeNothing_def
  by (simp add: simE_def sim_ShowTenant_def sim_ListUsers_def sim_ReadUser_def
      sim_ListApplications_def sim_k8sGet_def split: option.split)

lemma faithful_simE_ids: "lookupsAnswerTheId simE"
  unfolding lookupsAnswerTheId_def
  by (auto simp add: simE_def sim_ShowTenant_def sim_ListUsers_def sim_ReadUser_def
      mkTenant_def mkUser_def List.map_filter_def split: option.splits if_splits)

lemma faithful_simE_writes: "writesAreRead simE"
  unfolding writesAreRead_def accountIs_def secretExists_def
  by (auto simp add: simE_def sim_ShowTenant_def sim_CreateTenant_def sim_UpdateTenant_def
      sim_ReadUser_def sim_ActivateUser_def sim_UpdateUser_def sim_k8sGet_def sim_k8sCreate_def
      mkTenant_def mkUser_def param_or_def Let_def split: option.splits if_splits prod.splits)

lemma faithful_simE_frame: "writesTouchNothingElse simE"
  unfolding writesTouchNothingElse_def
  by (auto simp add: simE_def sim_ShowTenant_def sim_ReadUser_def sim_ActivateUser_def
      sim_UpdateUser_def sim_k8sGet_def sim_k8sCreate_def sim_k8sStatusUpdate_def Let_def
      split: option.splits prod.splits)

lemma faithful_simE: "faithful simE"
  unfolding faithful_def
  using faithful_simE_reads faithful_simE_ids faithful_simE_writes faithful_simE_frame by simp

subsection \<open>Consequences of the assumptions\<close>

lemma faithful_reads:
  assumes "faithful E"
  shows "snd (ShowTenant E w i) = w" and "snd (ListUsers E w a p) = w"
    and "snd (ReadUser E w a i) = w" and "snd (ListApplications E w a) = w"
    and "snd (k8sGet E w nn) = w"
  using assms unfolding faithful_def readsChangeNothing_def by simp_all

lemma faithful_ShowTenant_id:
  "faithful E \<Longrightarrow> fst (ShowTenant E w i) = Inr td \<Longrightarrow> ID (Account (Signup td)) = i"
  unfolding faithful_def lookupsAnswerTheId_def by meson

lemma faithful_ReadUser_id:
  "faithful E \<Longrightarrow> fst (ReadUser E w a i) = Inr u \<Longrightarrow> user_ID u = i"
  unfolding faithful_def lookupsAnswerTheId_def by meson

lemma faithful_listed:
  "faithful E \<Longrightarrow> fst (ListUsers E w a p) = Inr users \<Longrightarrow> u \<in> set users \<Longrightarrow>
   user_ID u \<noteq> 0 \<and> fst (ReadUser E w a (user_ID u)) = Inr u"
  unfolding faithful_def lookupsAnswerTheId_def by meson

lemma faithful_created:
  "faithful E \<Longrightarrow> fst (CreateTenant E w org username email password) = Inr td \<Longrightarrow>
   ID (Account (Signup td)) \<noteq> 0 \<and>
   accountIs E (snd (CreateTenant E w org username email password)) (ID (Account (Signup td))) org email"
  unfolding faithful_def writesAreRead_def by meson

lemma faithful_updated:
  "faithful E \<Longrightarrow> fst (UpdateTenant E w i p) = Inr td \<Longrightarrow> p ''org_name'' = Some org \<Longrightarrow>
   p ''support_email'' = Some email \<Longrightarrow> accountIs E (snd (UpdateTenant E w i p)) i org email"
  unfolding faithful_def writesAreRead_def by meson

lemma faithful_activated:
  "faithful E \<Longrightarrow> fst (ActivateUser E w a i) = None \<Longrightarrow> fst (ReadUser E w a i) = Inr u \<Longrightarrow>
   \<exists>st. st \<noteq> ''pending'' \<and> fst (ReadUser E (snd (ActivateUser E w a i)) a i) = Inr (u\<lparr>State := st\<rparr>)"
  unfolding faithful_def writesAreRead_def by meson

lemma faithful_user_updated:
  "faithful E \<Longrightarrow> fst (UpdateUser E w a i p) = Inr x \<Longrightarrow> fst (ReadUser E w a i) = Inr u \<Longrightarrow>
   p ''username'' = Some username \<Longrightarrow> p ''email'' = Some email \<Longrightarrow>
   fst (ReadUser E (snd (UpdateUser E w a i p)) a i) = Inr (u\<lparr>UserName := username, user_Email := email\<rparr>)"
  unfolding faithful_def writesAreRead_def by meson

lemma faithful_secret_created:
  "faithful E \<Longrightarrow> fst (k8sCreate E w secret) = None \<Longrightarrow>
   secretExists E (snd (k8sCreate E w secret))
     \<lparr>nn_Name = secret_Name secret, nn_Namespace = secret_Namespace secret\<rparr>"
  unfolding faithful_def writesAreRead_def by meson

lemma faithful_frame:
  assumes "faithful E"
  shows "fst (ShowTenant E (snd (ActivateUser E w a i)) j) = fst (ShowTenant E w j)"
    and "fst (ShowTenant E (snd (UpdateUser E w a i p)) j) = fst (ShowTenant E w j)"
    and "fst (ShowTenant E (snd (k8sCreate E w secret)) j) = fst (ShowTenant E w j)"
    and "fst (ShowTenant E (snd (k8sStatusUpdate E w t)) j) = fst (ShowTenant E w j)"
    and "fst (ReadUser E (snd (k8sCreate E w secret)) a i) = fst (ReadUser E w a i)"
    and "fst (ReadUser E (snd (k8sStatusUpdate E w t)) a i) = fst (ReadUser E w a i)"
    and "fst (k8sGet E (snd (k8sStatusUpdate E w t)) nn) = fst (k8sGet E w nn)"
  using assms unfolding faithful_def writesTouchNothingElse_def by simp_all

text \<open>
  A run from a converged state makes three lookups and nothing else, and ends in success
  in the state it started from.
\<close>

lemma converged_run:
  assumes f: "faithful E" and c: "converged E (tenantR s) (world s)"
  shows "Run E s =
     (None, s\<lparr>calls := calls s @
        [CallShowTenant (TenantId (Status (tenantR s))),
         CallReadUser (TenantId (Status (tenantR s))) (AdminId (Status (tenantR s))),
         CallGet (tenantSecretName (tenantR s))]\<rparr>)"
proof -
  let ?tid = "TenantId (Status (tenantR s))"
  let ?aid = "AdminId (Status (tenantR s))"
  let ?nn = "tenantSecretName (tenantR s)"
  let ?s1 = "s\<lparr>calls := calls s @ [CallShowTenant ?tid]\<rparr>"
  let ?s2 = "s\<lparr>calls := calls s @ [CallShowTenant ?tid, CallReadUser ?tid ?aid]\<rparr>"
  let ?s3 = "s\<lparr>calls := calls s @ [CallShowTenant ?tid, CallReadUser ?tid ?aid, CallGet ?nn]\<rparr>"
  have ids: "?tid \<noteq> 0" "?aid \<noteq> 0"
    using c unfolding converged_def by simp_all
  obtain td where td: "fst (ShowTenant E (world s) ?tid) = Inr td"
    "ID (Account (Signup td)) = ?tid"
    "OrgName (Account (Signup td)) = OrganizationName (Spec (tenantR s))"
    "SupportEmail (Account (Signup td)) = Email (Spec (tenantR s))"
    using c unfolding converged_def accountIs_def by (auto split: sum.splits)
  obtain u where u: "fst (ReadUser E (world s) ?tid ?aid) = Inr u" "user_ID u = ?aid"
    "State u \<noteq> ''pending''" "UserName u = Username (Spec (tenantR s))"
    "user_Email u = Email (Spec (tenantR s))"
    using c unfolding converged_def activeUserIs_def by (auto split: sum.splits)
  obtain secret where sec: "fst (k8sGet E (world s) ?nn) = Inr secret"
    using c unfolding converged_def secretExists_def by (auto split: sum.splits)
  have 1: "fetchTenant E s = (Inr (Some td), ?s1)"
    unfolding fetchTenant_eq Let_def using ids td(1) faithful_reads(1) [OF f] by simp
  have 2: "syncTenant E td ?s1 = (Inr td, ?s1)"
    unfolding syncTenant_eq Let_def using td(3,4) by simp
  have t: "reconcileTenant E s = (Inr td, ?s1)"
    unfolding reconcileTenant_def 1 using 2 by simp
  have 3: "fetchAdminUser E td ?s1 = (Inr u, ?s2)"
    unfolding fetchAdminUser_eq using ids u(1) td(2) faithful_reads(3) [OF f] by simp
  have 4: "syncAdminUser E td u ?s2 = (Inr u, ?s2)"
    unfolding syncAdminUser_eq Let_def using u(3,4,5) by simp
  have a: "reconcileAdminUser E td ?s1 = (Inr u, ?s2)"
    unfolding reconcileAdminUser_def 3 using 4 by simp
  have 5: "findAccessTokenSecret E ?nn ?s2 = (Inr (Some secret), ?s3)"
    unfolding findAccessTokenSecret_eq using sec faithful_reads(5) [OF f] by simp
  have k: "reconcileAccessTokenSecret E td ?s2 = (None, ?s3)"
    unfolding reconcileAccessTokenSecret_def Let_def using 5
    by (simp add: tenantSecretName_def)
  have st: "Status (tenantR s) = getTenantStatus td u"
    unfolding getTenantStatus_def using td(2) u(2) by simp
  have 6: "updateTenantStatus E (getTenantStatus td u) ?s3 = (None, ?s3)"
    unfolding updateTenantStatus_def using st by simp
  show ?thesis
    unfolding Run_def t using a k 6 by simp
qed

text \<open>
  What each stage of a successful run leaves behind, under the assumptions on the
  collaborators.
\<close>

lemma reconcileTenant_converges:
  assumes f: "faithful E" and ok: "fst (reconcileTenant E s) = Inr td"
  shows "ID (Account (Signup td)) \<noteq> 0 \<and>
     accountIs E (world (afterTenant E s)) (ID (Account (Signup td)))
       (OrganizationName (Spec (tenantR s))) (Email (Spec (tenantR s)))"
proof (cases rule: fetchTenant_cases [of E s])
  case absent
  let ?sf = "snd (fetchTenant E s)"
  let ?s1 = "snd (getAdminPassword E ?sf)"
  have r: "reconcileTenant E s = createTenant E ?sf"
    using absent by (rule reconcileTenant_absent)
  have tr: "tenantR ?sf = tenantR s"
    by (rule fetchTenant_tenantR)
  obtain password where pw: "fst (getAdminPassword E ?sf) = Inr password"
    using ok unfolding r createTenant_eq Let_def
    by (cases "fst (getAdminPassword E ?sf)") simp_all
  let ?c = "CreateTenant E (world ?s1) (OrganizationName (Spec (tenantR s)))
      (Username (Spec (tenantR s))) (Email (Spec (tenantR s))) password"
  have c: "fst ?c = Inr td"
    using ok unfolding r createTenant_eq Let_def pw tr by simp
  have w: "world (afterTenant E s) = snd ?c"
    unfolding afterTenant_def r createTenant_eq Let_def pw tr by simp
  show ?thesis
    unfolding w using faithful_created [OF f c] by simp
next
  case (found td0)
  note ft = fetchTenant_found [OF found]
  let ?tid = "TenantId (Status (tenantR s))"
  let ?sf = "snd (fetchTenant E s)"
  have r: "reconcileTenant E s = syncTenant E td0 ?sf"
    using found by (rule reconcileTenant_found)
  have tr: "tenantR ?sf = tenantR s"
    by (rule fetchTenant_tenantR)
  have wf: "world ?sf = world s"
    unfolding ft(3) using faithful_reads(1) [OF f] by simp
  have id0: "ID (Account (Signup td0)) = ?tid"
    using faithful_ShowTenant_id [OF f ft(2)] .
  let ?params = "[''support_email'' \<mapsto> Email (Spec (tenantR s)),
                  ''org_name'' \<mapsto> OrganizationName (Spec (tenantR s))]"
  let ?upd = "UpdateTenant E (world s) ?tid ?params"
  show ?thesis
  proof (cases "OrganizationName (Spec (tenantR s)) \<noteq> OrgName (Account (Signup td0)) \<or>
            Email (Spec (tenantR s)) \<noteq> SupportEmail (Account (Signup td0))")
    case True
    obtain x where x: "fst ?upd = Inr x"
      using ok True wf unfolding r syncTenant_eq Let_def tr
      by (cases "fst ?upd") simp_all
    have td: "ID (Account (Signup td)) = ?tid"
      using ok True x id0 wf unfolding r syncTenant_eq Let_def tr by auto
    have w: "world (afterTenant E s) = snd ?upd"
      using True x wf unfolding afterTenant_def r syncTenant_eq Let_def tr by simp
    have "accountIs E (snd ?upd) ?tid (OrganizationName (Spec (tenantR s))) (Email (Spec (tenantR s)))"
      by (rule faithful_updated [OF f x]) simp_all
    then show ?thesis
      unfolding w td using ft(1) by simp
  next
    case False
    have td: "td = td0"
      using ok False wf unfolding r syncTenant_eq Let_def tr by simp
    have w: "world (afterTenant E s) = world s"
      using False wf unfolding afterTenant_def r syncTenant_eq Let_def tr by simp
    show ?thesis
      unfolding w td accountIs_def id0 using ft(1,2) False id0 by simp
  qed
next
  case (failed err)
  then have "fst (reconcileTenant E s) = Inl err"
    by (simp add: reconcileTenant_fetch_fails)
  then show ?thesis using ok by simp
qed

lemma scanUsers_mem: "scanUsers email username users = Some u \<Longrightarrow> u \<in> set users"
  by (induction users) (auto split: if_splits)

lemma fetchAdminUser_readable:
  assumes f: "faithful E" and ok: "fst (fetchAdminUser E td s) = Inr u"
  shows "user_ID u \<noteq> 0 \<and>
     fst (ReadUser E (world s) (ID (Account (Signup td))) (user_ID u)) = Inr u \<and>
     world (snd (fetchAdminUser E td s)) = world s"
proof (cases "AdminId (Status (tenantR s)) = 0")
  case True
  let ?a = "ID (Account (Signup td))"
  let ?lst = "ListUsers E (world s) ?a [''role'' \<mapsto> ''admin'']"
  have e: "fetchAdminUser E td s = findAdminUser E td s"
    unfolding fetchAdminUser_eq using True by simp
  obtain users where users: "fst ?lst = Inr users"
    using ok unfolding e findAdminUser_eq Let_def by (cases "fst ?lst") simp_all
  have "scanUsers (Email (Spec (tenantR s))) (Username (Spec (tenantR s))) users = Some u"
    using ok unfolding e findAdminUser_eq Let_def users by (simp split: option.splits)
  then have "u \<in> set users"
    by (rule scanUsers_mem)
  then have "user_ID u \<noteq> 0 \<and> fst (ReadUser E (world s) ?a (user_ID u)) = Inr u"
    by (rule faithful_listed [OF f users])
  moreover have "world (snd (fetchAdminUser E td s)) = world s"
    unfolding e findAdminUser_eq Let_def using faithful_reads(2) [OF f] by simp
  ultimately show ?thesis by simp
next
  case False
  let ?a = "ID (Account (Signup td))"
  have r: "fst (ReadUser E (world s) ?a (AdminId (Status (tenantR s)))) = Inr u"
    using ok False unfolding fetchAdminUser_eq by simp
  have i: "user_ID u = AdminId (Status (tenantR s))"
    by (rule faithful_ReadUser_id [OF f r])
  have "world (snd (fetchAdminUser E td s)) = world s"
    unfolding fetchAdminUser_eq using False faithful_reads(3) [OF f] by simp
  then show ?thesis
    using r i False by simp
qed

lemma syncAdminUser_converges:
  assumes f: "faithful E"
    and r0: "fst (ReadUser E (world s) (ID (Account (Signup td))) (user_ID u)) = Inr u"
    and ok: "fst (syncAdminUser E td u s) = Inr u'"
  shows "user_ID u' = user_ID u \<and>
     activeUserIs E (world (snd (syncAdminUser E td u s))) (ID (Account (Signup td))) (user_ID u)
       (Username (Spec (tenantR s))) (Email (Spec (tenantR s))) \<and>
     (\<forall>j. fst (ShowTenant E (world (snd (syncAdminUser E td u s))) j) = fst (ShowTenant E (world s) j))"
proof -
  let ?a = "ID (Account (Signup td))"
  let ?i = "user_ID u"
  let ?un = "Username (Spec (tenantR s))"
  let ?em = "Email (Spec (tenantR s))"
  let ?act = "ActivateUser E (world s) ?a ?i"
  let ?wA = "if State u = ''pending'' then snd ?act else world s"
  let ?params = "[''username'' \<mapsto> ?un, ''email'' \<mapsto> ?em]"
  let ?upd = "UpdateUser E ?wA ?a ?i ?params"
  let ?drift = "?un \<noteq> UserName u \<or> ?em \<noteq> user_Email u"
  have act: "fst ?act = None" if "State u = ''pending''"
    using ok that unfolding syncAdminUser_eq activateAdminUser_eq Let_def
    by (cases "fst ?act") simp_all
  text \<open>after the optional activation\<close>
  have "\<exists>st. st \<noteq> ''pending'' \<and> fst (ReadUser E ?wA ?a ?i) = Inr (u\<lparr>State := st\<rparr>)"
  proof (cases "State u = ''pending''")
    case True
    then show ?thesis
      using faithful_activated [OF f act [OF True] r0] by simp
  next
    case False
    have "fst (ReadUser E (world s) ?a ?i) = Inr (u\<lparr>State := State u\<rparr>)"
      using r0 by simp
    then show ?thesis using False by auto
  qed
  then obtain st where st: "st \<noteq> ''pending''" "fst (ReadUser E ?wA ?a ?i) = Inr (u\<lparr>State := st\<rparr>)"
    by blast
  have showA: "fst (ShowTenant E ?wA j) = fst (ShowTenant E (world s) j)" for j
    using faithful_frame(1) [OF f] by simp
  show ?thesis
  proof (cases ?drift)
    case True
    obtain x where x: "fst ?upd = Inr x"
      using ok True unfolding syncAdminUser_eq activateAdminUser_eq Let_def
      by (cases "State u = ''pending''"; cases "fst ?upd") (simp_all add: act)
    have res: "syncAdminUser E td u s =
        (Inr (u\<lparr>UserName := ?un, user_Email := ?em\<rparr>),
         (if State u = ''pending'' then snd (activateAdminUser E td u s) else s)
           \<lparr>world := snd ?upd,
            calls := calls (if State u = ''pending'' then snd (activateAdminUser E td u s) else s) @
              [CallUpdateUser ?a ?i ?params]\<rparr>)"
      using True x unfolding syncAdminUser_eq activateAdminUser_eq Let_def
      by (cases "State u = ''pending''") (simp_all add: act)
    have rd: "fst (ReadUser E (snd ?upd) ?a ?i) = Inr (u\<lparr>State := st, UserName := ?un, user_Email := ?em\<rparr>)"
      using faithful_user_updated [OF f x st(2), of ?un ?em] by simp
    have "fst (ShowTenant E (snd ?upd) j) = fst (ShowTenant E (world s) j)" for j
      using faithful_frame(2) [OF f, of ?wA ?a ?i ?params j] showA [of j] by simp
    then show ?thesis
      using ok st(1) rd unfolding res activeUserIs_def by auto
  next
    case False
    have res: "syncAdminUser E td u s =
        (Inr u, if State u = ''pending'' then snd (activateAdminUser E td u s) else s)"
      using False unfolding syncAdminUser_eq activateAdminUser_eq Let_def
      by (cases "State u = ''pending''") (simp_all add: act)
    have w: "world (snd (syncAdminUser E td u s)) = ?wA"
      unfolding res activateAdminUser_eq by simp
    show ?thesis
      unfolding w using ok st False showA unfolding res activeUserIs_def by auto
  qed
qed

lemma reconcileAdminUser_converges:
  assumes f: "faithful E" and ok: "fst (reconcileAdminUser E td s) = Inr u"
  shows "user_ID u \<noteq> 0 \<and>
     activeUserIs E (world (snd (reconcileAdminUser E td s))) (ID (Account (Signup td))) (user_ID u)
       (Username (Spec (tenantR s))) (Email (Spec (tenantR s))) \<and>
     (\<forall>j. fst (ShowTenant E (world (snd (reconcileAdminUser E td s))) j) = fst (ShowTenant E (world s) j))"
proof -
  let ?s1 = "snd (fetchAdminUser E td s)"
  obtain u0 where u0: "fst (fetchAdminUser E td s) = Inr u0"
    using ok unfolding reconcileAdminUser_def split_beta
    by (cases "fst (fetchAdminUser E td s)") simp_all
  have e: "reconcileAdminUser E td s = syncAdminUser E td u0 ?s1"
    using u0 by (rule reconcileAdminUser_fetched)
  note fa = fetchAdminUser_readable [OF f u0]
  have r0: "fst (ReadUser E (world ?s1) (ID (Account (Signup td))) (user_ID u0)) = Inr u0"
    using fa by simp
  have ok': "fst (syncAdminUser E td u0 ?s1) = Inr u"
    using ok unfolding e .
  note sy = syncAdminUser_converges [OF f r0 ok']
  show ?thesis
    unfolding e using sy fa by (simp add: fetchAdminUser_tenantR)
qed

lemma createTenantProviderKeySecret_ok:
  assumes "fst (createTenantProviderKeySecret E td nn s) = None"
  shows "\<exists>secret. secret_Name secret = nn_Name nn \<and> secret_Namespace secret = nn_Namespace nn \<and>
     fst (k8sCreate E (snd (ListApplications E (world s) (ID (Account (Signup td))))) secret) = None \<and>
     world (snd (createTenantProviderKeySecret E td nn s)) =
       snd (k8sCreate E (snd (ListApplications E (world s) (ID (Account (Signup td))))) secret)"
proof -
  let ?la = "ListApplications E (world s) (ID (Account (Signup td)))"
  obtain apps where apps: "fst ?la = Inr apps"
    using assms unfolding createTenantProviderKeySecret_def split_beta findTenantProviderKey_eq
    by (cases "fst ?la") simp_all
  have len: "length apps = 1"
    using assms apps unfolding createTenantProviderKeySecret_def split_beta findTenantProviderKey_eq
    by (cases "length apps = 1") simp_all
  obtain url where url: "URLFromDomain E (AdminDomain (Account (Signup td))) = Inr url"
    using assms apps len unfolding createTenantProviderKeySecret_def split_beta findTenantProviderKey_eq
    by (cases "URLFromDomain E (AdminDomain (Account (Signup td)))") simp_all
  show ?thesis
    using assms apps len url
    unfolding createTenantProviderKeySecret_def split_beta findTenantProviderKey_eq
      addOwnerRefToObject_def invoke_eq Let_def
    by (intro exI [of _ "\<lparr>secret_APIVersion = ''v1'', secret_Kind = ''Secret'',
          secret_Namespace = nn_Namespace nn, secret_Name = nn_Name nn,
          Labels = [''app'' \<mapsto> ''3scale-operator''],
          OwnerReferences = [asOwner E (tenantR s)],
          StringData = [TenantProviderKeySecretField E \<mapsto> UserKey (apps ! 0),
                        TenantAdminDomainKeySecretField E \<mapsto> url],
          Data = Map.empty, secret_Type = ''Opaque''\<rparr>"]) simp
qed

lemma reconcileAccessTokenSecret_converges:
  assumes f: "faithful E" and ok: "fst (reconcileAccessTokenSecret E td s) = None"
  shows "secretExists E (world (snd (reconcileAccessTokenSecret E td s))) (tenantSecretName (tenantR s)) \<and>
     (\<forall>j. fst (ShowTenant E (world (snd (reconcileAccessTokenSecret E td s))) j) =
           fst (ShowTenant E (world s) j)) \<and>
     (\<forall>a i. fst (ReadUser E (world (snd (reconcileAccessTokenSecret E td s))) a i) =
           fst (ReadUser E (world s) a i))"
proof -
  let ?nn = "tenantSecretName (tenantR s)"
  let ?g = "k8sGet E (world s) ?nn"
  let ?sf = "snd (findAccessTokenSecret E ?nn s)"
  have wf: "world ?sf = world s"
    unfolding findAccessTokenSecret_eq using faithful_reads(5) [OF f] by simp
  have trf: "tenantR ?sf = tenantR s"
    unfolding findAccessTokenSecret_eq by simp
  show ?thesis
  proof (cases "fst (findAccessTokenSecret E ?nn s)")
    case (Inl err)
    then have "fst (reconcileAccessTokenSecret E td s) = Some err"
      unfolding reconcileAccessTokenSecret_def split_beta Let_def tenantSecretName_def by simp
    then show ?thesis using ok by simp
  next
    case (Inr found)
    show ?thesis
    proof (cases found)
      case None
      have e: "reconcileAccessTokenSecret E td s = createTenantProviderKeySecret E td ?nn ?sf"
        using Inr None by (simp add: reconcileAccessTokenSecret_absent)
      have ok': "fst (createTenantProviderKeySecret E td ?nn ?sf) = None"
        using ok unfolding e .
      obtain secret where secret: "secret_Name secret = nn_Name ?nn"
        "secret_Namespace secret = nn_Namespace ?nn"
        "fst (k8sCreate E (world s) secret) = None"
        "world (snd (createTenantProviderKeySecret E td ?nn ?sf)) = snd (k8sCreate E (world s) secret)"
        using createTenantProviderKeySecret_ok [OF ok'] unfolding wf faithful_reads(4) [OF f]
        by blast
      have "secretExists E (snd (k8sCreate E (world s) secret))
          \<lparr>nn_Name = secret_Name secret, nn_Namespace = secret_Namespace secret\<rparr>"
        by (rule faithful_secret_created [OF f secret(3)])
      then have "secretExists E (snd (k8sCreate E (world s) secret)) ?nn"
        unfolding secret(1,2) by (simp add: tenantSecretName_def)
      then show ?thesis
        unfolding e secret(4) using faithful_frame(3,5) [OF f] by simp
    next
      case (Some secret)
      have g: "fst ?g = Inr secret"
        using Inr Some unfolding findAccessTokenSecret_eq
        by (cases "fst ?g") (simp_all split: if_splits)
      have e: "reconcileAccessTokenSecret E td s = (None, ?sf)"
        using Inr Some unfolding reconcileAccessTokenSecret_def split_beta Let_def tenantSecretName_def
        by simp
      show ?thesis
        unfolding e snd_conv wf secretExists_def using g by simp
    qed
  qed
qed

lemma updateTenantStatus_converges:
  assumes f: "faithful E"
  shows "Status (tenantR (snd (updateTenantStatus E st s))) = st \<and>
     Spec (tenantR (snd (updateTenantStatus E st s))) = Spec (tenantR s) \<and>
     (\<forall>j. fst (ShowTenant E (world (snd (updateTenantStatus E st s))) j) = fst (ShowTenant E (world s) j)) \<and>
     (\<forall>a i. fst (ReadUser E (world (snd (updateTenantStatus E st s))) a i) = fst (ReadUser E (world s) a i)) \<and>
     (\<forall>nn. fst (k8sGet E (world (snd (updateTenantStatus E st s))) nn) = fst (k8sGet E (world s) nn))"
proof (cases "Status (tenantR s) = st")
  case True
  then show ?thesis unfolding updateTenantStatus_def by simp
next
  case False
  then show ?thesis
    unfolding updateTenantStatus_def invoke_eq Let_def
    using faithful_frame(4,6,7) [OF f] by simp
qed

text \<open>
  C8. Let the remote system and the store be faithful: lookups change nothing and answer
  with the entity asked for, successful writes are seen by later lookups, and a write
  changes nothing but its own entity. If a run has succeeded, then a second run, started
  in the state the first one left (the same record, the same world: no change from
  outside), succeeds as well and makes three calls, all of them lookups: of the account,
  of the admin user and of the access token secret. It makes no account create or update
  call, no user activation or update call, no secret-create call and no status update
  call, and leaves the world and the record, its status included, as they were.
\<close>

theorem second_run_only_reads:
  assumes f: "faithful E" and ok: "fst (Run E s) = None"
  shows "fst (Run E (snd (Run E s))) = None \<and>
     issued (snd (Run E s)) (snd (Run E (snd (Run E s)))) =
       [CallShowTenant (TenantId (Status (tenantR (snd (Run E s))))),
        CallReadUser (TenantId (Status (tenantR (snd (Run E s)))))
          (AdminId (Status (tenantR (snd (Run E s))))),
        CallGet (tenantSecretName (tenantR (snd (Run E s))))] \<and>
     filter isWrite (issued (snd (Run E s)) (snd (Run E (snd (Run E s))))) = [] \<and>
     world (snd (Run E (snd (Run E s)))) = world (snd (Run E s)) \<and>
     tenantR (snd (Run E (snd (Run E s)))) = tenantR (snd (Run E s))"
proof -
  let ?s1 = "afterTenant E s"
  obtain td where t: "fst (reconcileTenant E s) = Inr td"
    using ok by (cases "fst (reconcileTenant E s)") (simp_all add: Run_tenant_fails)
  let ?s2 = "afterAdmin E td s"
  obtain u where a: "fst (reconcileAdminUser E td ?s1) = Inr u"
    using ok t by (cases "fst (reconcileAdminUser E td ?s1)") (simp_all add: Run_admin_fails)
  let ?s3 = "afterSecret E td s"
  have k: "fst (reconcileAccessTokenSecret E td ?s2) = None"
    using ok t a by (cases "fst (reconcileAccessTokenSecret E td ?s2)") (simp_all add: Run_secret_fails)
  have run: "Run E s = updateTenantStatus E (getTenantStatus td u) ?s3"
    using t a k by (rule Run_status)
  let ?s4 = "snd (Run E s)"
  let ?tid = "ID (Account (Signup td))"
  let ?aid = "user_ID u"
  have r1: "tenantR ?s1 = tenantR s"
    by (simp add: afterTenant_def reconcileTenant_tenantR)
  have r2: "tenantR ?s2 = tenantR s"
    by (simp add: afterAdmin_def reconcileAdminUser_tenantR r1)
  have r3: "tenantR ?s3 = tenantR s"
    by (rule afterSecret_tenantR)
  note T = reconcileTenant_converges [OF f t]
  note A = reconcileAdminUser_converges [OF f a, unfolded r1, folded afterAdmin_def]
  note K = reconcileAccessTokenSecret_converges [OF f k, unfolded r2, folded afterSecret_def]
  note S = updateTenantStatus_converges [OF f, of "getTenantStatus td u" ?s3, folded run, unfolded r3]
  have st: "TenantId (Status (tenantR ?s4)) = ?tid" "AdminId (Status (tenantR ?s4)) = ?aid"
    using S by (simp_all add: getTenantStatus_def)
  have show4: "fst (ShowTenant E (world ?s4) j) = fst (ShowTenant E (world ?s1) j)" for j
    using S K A by simp
  have read4: "fst (ReadUser E (world ?s4) a i) = fst (ReadUser E (world ?s2) a i)" for a i
    using S K by simp
  have get4: "fst (k8sGet E (world ?s4) nn) = fst (k8sGet E (world ?s3) nn)" for nn
    using S by simp
  have name4: "tenantSecretName (tenantR ?s4) = tenantSecretName (tenantR s)"
    using S unfolding tenantSecretName_def by simp
  have sp: "Spec (tenantR ?s4) = Spec (tenantR s)"
    using S by simp
  have acc: "accountIs E (world ?s4) ?tid (OrganizationName (Spec (tenantR s))) (Email (Spec (tenantR s)))"
    unfolding accountIs_def show4 using T unfolding accountIs_def by simp
  have usr: "activeUserIs E (world ?s4) ?tid ?aid (Username (Spec (tenantR s))) (Email (Spec (tenantR s)))"
    unfolding activeUserIs_def read4 using A unfolding activeUserIs_def by simp
  have sec: "secretExists E (world ?s4) (tenantSecretName (tenantR s))"
    unfolding secretExists_def get4 using K unfolding secretExists_def by simp
  have c: "converged E (tenantR ?s4) (world ?s4)"
    unfolding converged_def st name4 sp using T A acc usr sec by simp
  note second = converged_run [OF f c]
  have i: "issued ?s4 (snd (Run E ?s4)) =
      [CallShowTenant (TenantId (Status (tenantR ?s4))),
       CallReadUser (TenantId (Status (tenantR ?s4))) (AdminId (Status (tenantR ?s4))),
       CallGet (tenantSecretName (tenantR ?s4))]"
    unfolding second by (rule issued_append) simp
  have "filter isWrite (issued ?s4 (snd (Run E ?s4))) = []"
    unfolding i by (simp add: isWrite_def)
  then show ?thesis
    using i unfolding second by simp
qed

theorem second_run_only_reads_witness:
  "faithful simE \<and>
   fst (Run simE (start (tenant0 0 0) simFresh)) = None \<and>
   fst (Run simE (snd (Run simE (start (tenant0 0 0) simFresh)))) = None \<and>
   issued (snd (Run simE (start (tenant0 0 0) simFresh)))
     (snd (Run simE (snd (Run simE (start (tenant0 0 0) simFresh))))) =
     [CallShowTenant 1, CallReadUser 1 1,
      CallGet \<lparr>nn_Name = ''acme-token'', nn_Namespace = ''ns1''\<rparr>] \<and>
   filter isWrite (issued (snd (Run simE (start (tenant0 0 0) simFresh)))
     (snd (Run simE (snd (Run simE (start (tenant0 0 0) simFresh)))))) = [] \<and>
   world (snd (Run simE (snd (Run simE (start (tenant0 0 0) simFresh))))) =
     world (snd (Run simE (start (tenant0 0 0) simFresh))) \<and>
   tenantR (snd (Run simE (snd (Run simE (start (tenant0 0 0) simFresh))))) =
     tenantR (snd (Run simE (start (tenant0 0 0) simFresh)))"
proof -
  have 1: "fst (Run simE (start (tenant0 0 0) simFresh)) = None"
    by (simp add: run_defs sim_defs)
  let ?s' = "snd (Run simE (start (tenant0 0 0) simFresh))"
  have 2: "TenantId (Status (tenantR ?s')) = 1" "AdminId (Status (tenantR ?s')) = 1"
    "tenantSecretName (tenantR ?s') = \<lparr>nn_Name = ''acme-token'', nn_Namespace = ''ns1''\<rparr>"
    by (simp_all add: run_defs sim_defs tenantSecretName_def)
  note r = second_run_only_reads [OF faithful_simE 1]
  show ?thesis
    using r [unfolded 2] faithful_simE 1 by (simp add: isWrite_def)
qed

end
